theory Spec2Isabelle
  imports Main
begin

section \<open>Python values used by the client\<close>

text \<open>
  A Python \<open>str\<close> is a sequence of Unicode code points, so it is modelled as a list of
  natural numbers; \<open>len\<close> is \<open>length\<close>.  \<open>lit\<close> turns an ASCII literal into such a list.
\<close>

type_synonym pystr = "nat list"

definition lit :: "string \<Rightarrow> pystr" where
  "lit cs = map of_char cs"

text \<open>The exceptions that occur in \<open>main.py\<close> and \<open>data.py\<close>.  \<open>WebSocketError\<close> stands
  for the exception of a transport call that fails, \<open>Exception\<close> for the plain
  \<open>Exception(...)\<close> raised by \<open>__create_connection\<close>, \<open>OverflowError\<close> for what
  \<open>datetime.fromtimestamp\<close> raises, \<open>UnicodeEncodeError\<close> for what \<open>print\<close> raises on a
  text that \<open>sys.stdout\<close> cannot encode.\<close>

datatype py_exc = ValueError | IndexError | AttributeError | OverflowError
  | WebSocketError | Exception | UnicodeEncodeError

text \<open>\<open>isinstance(e, Exception)\<close>: what a handler \<open>except Exception\<close> catches.  All
  these classes derive from \<open>Exception\<close>; the interrupts (\<open>KeyboardInterrupt\<close>,
  \<open>SystemExit\<close>), which do not, are no failures of the program or of its transport and
  are not modelled.\<close>

fun isinstance_Exception :: "py_exc \<Rightarrow> bool" where
  "isinstance_Exception ValueError = True"
| "isinstance_Exception IndexError = True"
| "isinstance_Exception AttributeError = True"
| "isinstance_Exception OverflowError = True"
| "isinstance_Exception WebSocketError = True"
| "isinstance_Exception Exception = True"
| "isinstance_Exception UnicodeEncodeError = True"

text \<open>The values a caller can pass for \<open>fut_contract\<close> (Python does not enforce the
  annotation \<open>int\<close>; \<open>bool\<close> is a subclass of \<open>int\<close>).\<close>

datatype pyval = PyNone | PyBool bool | PyInt int | PyStr pystr

fun isinstance_int :: "pyval \<Rightarrow> bool" where
  "isinstance_int (PyInt i) = True"
| "isinstance_int (PyBool b) = True"
| "isinstance_int PyNone = False"
| "isinstance_int (PyStr s) = False"

subsection \<open>Decimal numerals: \<open>str(n)\<close>\<close>

fun digits :: "nat \<Rightarrow> pystr" where
  "digits n = (if n < 10 then [48 + n] else digits (n div 10) @ [48 + n mod 10])"

declare digits.simps [simp del]

definition str_int :: "int \<Rightarrow> pystr" where
  "str_int i = (if i < 0 then lit ''-'' @ digits (nat (- i)) else digits (nat i))"

text \<open>What an f-string prints for a value, \<open>f"{v}"\<close>.\<close>

fun format_value :: "pyval \<Rightarrow> pystr" where
  "format_value PyNone = lit ''None''"
| "format_value (PyBool b) = (if b then lit ''True'' else lit ''False'')"
| "format_value (PyInt i) = str_int i"
| "format_value (PyStr s) = s"

subsection \<open>Substring tests: \<open>s.startswith(p)\<close> and \<open>sub in s\<close>\<close>

fun starts_with :: "pystr \<Rightarrow> pystr \<Rightarrow> bool" where
  "starts_with [] s = True"
| "starts_with (p # ps) [] = False"
| "starts_with (p # ps) (c # cs) = (p = c \<and> starts_with ps cs)"

fun py_in :: "pystr \<Rightarrow> pystr \<Rightarrow> bool" where
  "py_in sub [] = (sub = [])"
| "py_in sub (c # cs) = (starts_with sub (c # cs) \<or> py_in sub cs)"

section \<open>\<open>TvDatafeed.__format_symbol\<close>\<close>

text \<open>
  \<^verbatim>\<open>
  def __format_symbol(symbol, exchange=None, contract=None):
      if ":" in symbol:                 return symbol
      elif contract is None:            return symbol
      elif isinstance(contract, int):   return f"{symbol}{contract}!"
      else:                             raise ValueError("Not a valid contract")
  \<close>
\<close>

definition format_symbol :: "pystr \<Rightarrow> pystr option \<Rightarrow> pyval \<Rightarrow> py_exc + pystr" where
  "format_symbol symbol exchange contract =
     (if py_in (lit '':'') symbol then Inr symbol
      else if contract = PyNone then Inr symbol
      else if isinstance_int contract then Inr (symbol @ format_value contract @ lit ''!'')
      else Inl ValueError)"

section \<open>Message framing\<close>

subsection \<open>\<open>json.dumps(obj, separators=(",", ":"))\<close>\<close>

text \<open>
  The JSON values the client serialises: strings, integers, lists and dictionaries with
  string keys (and \<open>None\<close>, \<open>True\<close>, \<open>False\<close>).  \<open>json.dumps\<close> is called without
  \<open>ensure_ascii=False\<close>, so the standard library escapes every character outside
  \<open>' '..'~'\<close> as well as the quote and the backslash: the named escapes
  \<open>\b \f \n \r \t\<close>, \<open>\uXXXX\<close> below \<open>0x10000\<close> and a surrogate pair above.
\<close>

datatype json = JNull | JBool bool | JInt int | JStr pystr
  | JList "json list" | JDict "(pystr \<times> json) list"

definition hex_digit :: "nat \<Rightarrow> nat" where
  "hex_digit d = (if d < 10 then 48 + d else 87 + d)"

definition hex4 :: "nat \<Rightarrow> pystr" where
  "hex4 n = [hex_digit (n div 4096 mod 16), hex_digit (n div 256 mod 16),
             hex_digit (n div 16 mod 16), hex_digit (n mod 16)]"

definition escape_char :: "nat \<Rightarrow> pystr" where
  "escape_char c =
     (if c = 92 then [92, 92]
      else if c = 34 then [92, 34]
      else if c = 8 then [92, 98]
      else if c = 12 then [92, 102]
      else if c = 10 then [92, 110]
      else if c = 13 then [92, 114]
      else if c = 9 then [92, 116]
      else if 32 \<le> c \<and> c \<le> 126 then [c]
      else if c < 65536 then [92, 117] @ hex4 c
      else [92, 117] @ hex4 (55296 + (c - 65536) div 1024 mod 1024)
         @ [92, 117] @ hex4 (56320 + (c - 65536) mod 1024))"

definition encode_basestring_ascii :: "pystr \<Rightarrow> pystr" where
  "encode_basestring_ascii s = [34] @ concat (map escape_char s) @ [34]"

fun join :: "pystr \<Rightarrow> pystr list \<Rightarrow> pystr" where
  "join sep [] = []"
| "join sep [x] = x"
| "join sep (x # y # ys) = x @ sep @ join sep (y # ys)"

fun dumps :: "json \<Rightarrow> pystr" where
  "dumps JNull = lit ''null''"
| "dumps (JBool b) = (if b then lit ''true'' else lit ''false'')"
| "dumps (JInt i) = str_int i"
| "dumps (JStr s) = encode_basestring_ascii s"
| "dumps (JList xs) = lit ''['' @ join (lit '','') (map dumps xs) @ lit '']''"
| "dumps (JDict kvs) =
     lit ''{'' @ join (lit '','')
                   (map (\<lambda>(k, v). encode_basestring_ascii k @ lit '':'' @ dumps v) kvs)
       @ lit ''}''"

subsection \<open>\<open>__prepend_header\<close>, \<open>__construct_message\<close>, \<open>__create_message\<close>\<close>

definition prepend_header :: "pystr \<Rightarrow> pystr" where
  "prepend_header st = lit ''~m~'' @ digits (length st) @ lit ''~m~'' @ st"

definition construct_message :: "pystr \<Rightarrow> json list \<Rightarrow> pystr" where
  "construct_message func param_list =
     dumps (JDict [(lit ''m'', JStr func), (lit ''p'', JList param_list)])"

definition create_message :: "pystr \<Rightarrow> json list \<Rightarrow> pystr" where
  "create_message func param_list = prepend_header (construct_message func param_list)"

subsection \<open>The wire: bytes of a string, and reading a frame back\<close>

text \<open>The number of bytes of a code point and of a string in UTF-8, the encoding in
  which a text frame travels.\<close>

definition utf8_len :: "nat \<Rightarrow> nat" where
  "utf8_len c = (if c < 128 then 1 else if c < 2048 then 2 else if c < 65536 then 3 else 4)"

definition byte_length :: "pystr \<Rightarrow> nat" where
  "byte_length s = sum_list (map utf8_len s)"

text \<open>The receiving side of a frame, following the wire format of the specification
  (\<open>~m~\<close>, the decimal byte length, \<open>~m~\<close>, the payload): it reads the length prefix and
  accepts the payload when it has that many bytes.\<close>

definition is_digit :: "nat \<Rightarrow> bool" where
  "is_digit c = (48 \<le> c \<and> c \<le> 57)"

definition nat_of_digits :: "pystr \<Rightarrow> nat" where
  "nat_of_digits ds = foldl (\<lambda>a d. 10 * a + (d - 48)) 0 ds"

definition decode_frame :: "pystr \<Rightarrow> (nat \<times> pystr) option" where
  "decode_frame msg =
     (if starts_with (lit ''~m~'') msg then
        (let ds = takeWhile is_digit (drop 3 msg);
             rest = dropWhile is_digit (drop 3 msg)
         in if ds \<noteq> [] \<and> starts_with (lit ''~m~'') rest
              \<and> byte_length (drop 3 rest) = nat_of_digits ds
            then Some (nat_of_digits ds, drop 3 rest) else None)
      else None)"

section \<open>The environment of a fetch\<close>

text \<open>
  Everything the client takes from outside is scripted by an environment: whether the
  \<open>k\<close>-th call of \<open>create_connection\<close> opens a socket, whether the \<open>k\<close>-th \<open>ws.send\<close>
  succeeds, what the \<open>k\<close>-th \<open>ws.recv\<close> returns (\<open>None\<close>: it raises, or returns something
  that is not a \<open>str\<close>, which raises at \<open>result + "\n"\<close>), which index the \<open>k\<close>-th
  \<open>random.choice\<close> picks, and the two library functions on floating-point numbers that
  the parser calls, \<open>float(s)\<close> (\<open>None\<close>: \<open>ValueError\<close>) and \<open>datetime.fromtimestamp\<close>
  (\<open>None\<close>: it raises), and what the \<open>k\<close>-th \<open>print\<close> does with its text (\<open>None\<close>: the
  text is written; \<open>Some e\<close>: it raises \<open>e\<close>, for instance \<open>UnicodeEncodeError\<close> when
  \<open>sys.stdout\<close> cannot encode the text).  The calls of one run happen one after the other,
  so every behaviour of the outside is such a script.  \<open>'f\<close> is the type of floats, \<open>'t\<close>
  of time stamps.
\<close>

record ('f, 't) env =
  open_ok :: "nat \<Rightarrow> bool"
  send_ok :: "nat \<Rightarrow> bool"
  recv_result :: "nat \<Rightarrow> pystr option"
  random_choice :: "nat \<Rightarrow> nat"
  py_float :: "pystr \<Rightarrow> 'f option"
  fromtimestamp :: "'f \<Rightarrow> 't option"
  stdout_write :: "nat \<Rightarrow> pystr \<Rightarrow> py_exc option"

text \<open>
  The state of a \<open>TvDatafeed\<close> object and of the outside: \<open>self.token\<close>, \<open>self.ws\<close> (the
  number of the connection it holds, \<open>None\<close> before the first one), how many connections
  were attempted, how many receives, random choices and calls of \<open>print\<close> were made, every
  message handed to \<open>ws.send\<close>, and the connections \<open>close\<close> was called on.  Logging and
  \<open>time.sleep\<close> change nothing the client reads and are left out (the \<open>logging\<close> module
  swallows the errors of its handlers).
\<close>

record state =
  token :: pystr
  ws :: "nat option"
  n_open :: nat
  n_recv :: nat
  n_rand :: nat
  sent :: "pystr list"
  closed :: "nat list"
  n_print :: nat

definition max_retries :: nat where
  "max_retries = 3"

datatype interval = in_1_minute | in_3_minute | in_5_minute | in_15_minute | in_30_minute
  | in_45_minute | in_1_hour | in_2_hour | in_3_hour | in_4_hour
  | in_daily | in_weekly | in_monthly

fun interval_value :: "interval \<Rightarrow> pystr" where
  "interval_value in_1_minute = lit ''1''"
| "interval_value in_3_minute = lit ''3''"
| "interval_value in_5_minute = lit ''5''"
| "interval_value in_15_minute = lit ''15''"
| "interval_value in_30_minute = lit ''30''"
| "interval_value in_45_minute = lit ''45''"
| "interval_value in_1_hour = lit ''1H''"
| "interval_value in_2_hour = lit ''2H''"
| "interval_value in_3_hour = lit ''3H''"
| "interval_value in_4_hour = lit ''4H''"
| "interval_value in_daily = lit ''1D''"
| "interval_value in_weekly = lit ''1W''"
| "interval_value in_monthly = lit ''1M''"

subsection \<open>\<open>__create_connection\<close>\<close>

text \<open>
  \<^verbatim>\<open>
  for attempt in range(self.__max_retries):
      try:
          self.ws = create_connection(ws_url, ...)
          return
      except Exception as e: ...
  raise Exception("Failed to create WebSocket connection after all retries")
  \<close>
\<close>

fun create_connection_loop :: "('f, 't) env \<Rightarrow> nat list \<Rightarrow> state \<Rightarrow> (py_exc + unit) \<times> state" where
  "create_connection_loop env [] st = (Inl Exception, st)"
| "create_connection_loop env (attempt # rest) st =
     (if open_ok env (n_open st)
      then (Inr (), st\<lparr>ws := Some (n_open st), n_open := Suc (n_open st)\<rparr>)
      else create_connection_loop env rest (st\<lparr>n_open := Suc (n_open st)\<rparr>))"

definition create_connection :: "('f, 't) env \<Rightarrow> state \<Rightarrow> (py_exc + unit) \<times> state" where
  "create_connection env st = create_connection_loop env [0..<max_retries] st"

subsection \<open>\<open>__generate_session\<close>, \<open>__generate_chart_session\<close>\<close>

definition ascii_lowercase :: pystr where
  "ascii_lowercase = lit ''abcdefghijklmnopqrstuvwxyz''"

definition random_string :: "('f, 't) env \<Rightarrow> nat \<Rightarrow> nat \<Rightarrow> pystr" where
  "random_string env k stringLength =
     map (\<lambda>i. ascii_lowercase ! (random_choice env (k + i) mod 26)) [0..<stringLength]"

definition generate_session :: "('f, 't) env \<Rightarrow> state \<Rightarrow> pystr \<times> state" where
  "generate_session env st =
     (lit ''qs_'' @ random_string env (n_rand st) 12, st\<lparr>n_rand := n_rand st + 12\<rparr>)"

definition generate_chart_session :: "('f, 't) env \<Rightarrow> state \<Rightarrow> pystr \<times> state" where
  "generate_chart_session env st =
     (lit ''cs_'' @ random_string env (n_rand st) 12, st\<lparr>n_rand := n_rand st + 12\<rparr>)"

subsection \<open>\<open>__send_message\<close> and the messages of one attempt\<close>

definition send_message :: "('f, 't) env \<Rightarrow> pystr \<Rightarrow> json list \<Rightarrow> state \<Rightarrow> (py_exc + unit) \<times> state" where
  "send_message env func args st =
     (let m = create_message func args;
          st' = st\<lparr>sent := sent st @ [m]\<rparr>
      in if send_ok env (length (sent st)) then (Inr (), st') else (Inl WebSocketError, st'))"

text \<open>The nine \<open>self.__send_message(func, args)\<close> statements of \<open>get_hist\<close>, in the order
  of the source, as the list of their arguments.\<close>

definition resolve_payload :: "pystr \<Rightarrow> bool \<Rightarrow> pystr" where
  "resolve_payload formatted_symbol extended_session =
     lit ''={'' @ [34] @ lit ''symbol'' @ [34] @ lit '':'' @ [34] @ formatted_symbol @ [34]
       @ lit '','' @ [34] @ lit ''adjustment'' @ [34] @ lit '':'' @ [34] @ lit ''splits'' @ [34]
       @ lit '','' @ [34] @ lit ''session'' @ [34] @ lit '':'' @ [34]
       @ (if \<not> extended_session then lit ''regular'' else lit ''extended'') @ [34] @ lit ''}''"

definition quote_fields :: "pystr list" where
  "quote_fields = map lit
     [''ch'', ''chp'', ''current_session'', ''description'', ''local_description'',
      ''language'', ''exchange'', ''fractional'', ''is_tradable'', ''lp'', ''lp_time'',
      ''minmov'', ''minmove2'', ''original_name'', ''pricescale'', ''pro_name'',
      ''short_name'', ''type'', ''update_mode'', ''volume'', ''currency_code'', ''rchp'', ''rtc'']"

definition handshake ::
  "pystr \<Rightarrow> pystr \<Rightarrow> pystr \<Rightarrow> pystr \<Rightarrow> pystr \<Rightarrow> int \<Rightarrow> bool \<Rightarrow> (pystr \<times> json list) list" where
  "handshake tok session chart_session formatted_symbol interval_val n_bars extended_session =
     [(lit ''set_auth_token'', [JStr tok]),
      (lit ''chart_create_session'', [JStr chart_session, JStr []]),
      (lit ''quote_create_session'', [JStr session]),
      (lit ''quote_set_fields'', JStr session # map JStr quote_fields),
      (lit ''quote_add_symbols'',
         [JStr session, JStr formatted_symbol,
          JDict [(lit ''flags'', JList [JStr (lit ''force_permission'')])]]),
      (lit ''quote_fast_symbols'', [JStr session, JStr formatted_symbol]),
      (lit ''resolve_symbol'',
         [JStr chart_session, JStr (lit ''symbol_1''),
          JStr (resolve_payload formatted_symbol extended_session)]),
      (lit ''create_series'',
         [JStr chart_session, JStr (lit ''s1''), JStr (lit ''s1''), JStr (lit ''symbol_1''),
          JStr interval_val, JInt n_bars]),
      (lit ''switch_timezone'', [JStr chart_session, JStr (lit ''exchange'')])]"

fun send_all :: "('f, 't) env \<Rightarrow> (pystr \<times> json list) list \<Rightarrow> state \<Rightarrow> (py_exc + unit) \<times> state" where
  "send_all env [] st = (Inr (), st)"
| "send_all env ((func, args) # rest) st =
     (case send_message env func args st of
        (Inl e, st') \<Rightarrow> (Inl e, st')
      | (Inr u, st') \<Rightarrow> send_all env rest st')"

section \<open>The stream parser: \<open>__create_df\<close>\<close>

text \<open>
  \<^verbatim>\<open>
  out = re.search('"s":\[(.+?)\}\]', raw_data).group(1)
  x = out.split(',{"')
  \<close>
  \<open>re.search\<close> tries the start positions from the left.  At one start, after the literal
  \<open>"s":[\<close>, the lazy group \<open>(.+?)\<close> takes at least one character, never a newline, and
  stops at the first place where \<open>}]\<close> follows; reaching a newline or the end of the text
  first, the match at this start fails.  No match at all makes \<open>.group\<close> raise
  \<open>AttributeError\<close>.
\<close>

fun lazy_group :: "pystr \<Rightarrow> pystr option" where
  "lazy_group [] = None"
| "lazy_group (c # cs) =
     (if c = 10 then None
      else if starts_with (lit ''}]'') cs then Some [c]
      else map_option ((#) c) (lazy_group cs))"

fun re_search_bars :: "pystr \<Rightarrow> pystr option" where
  "re_search_bars [] = None"
| "re_search_bars (c # cs) =
     (if starts_with ([34] @ lit ''s'' @ [34] @ lit '':['') (c # cs)
      then (case lazy_group (drop 4 cs) of
              Some g \<Rightarrow> Some g
            | None \<Rightarrow> re_search_bars cs)
      else re_search_bars cs)"

text \<open>\<open>s.split(sep)\<close> for a separator that is not empty: the pieces between the
  occurrences of \<open>sep\<close>, found from the left without overlap.\<close>

fun py_split :: "pystr \<Rightarrow> pystr \<Rightarrow> pystr \<Rightarrow> pystr list" where
  "py_split sep cur [] = [cur]"
| "py_split sep cur (c # cs) =
     (if starts_with sep (c # cs) then cur # py_split sep [] (drop (length sep - 1) cs)
      else py_split sep (cur @ [c]) cs)"

text \<open>\<open>re.split("\[|:|,|\]", xi)\<close>: the pieces between the characters
  \<open>[\<close>, \<open>:\<close>, \<open>,\<close> and \<open>]\<close>.\<close>

fun re_split_fields :: "pystr \<Rightarrow> pystr \<Rightarrow> pystr list" where
  "re_split_fields cur [] = [cur]"
| "re_split_fields cur (c # cs) =
     (if c = 91 \<or> c = 58 \<or> c = 44 \<or> c = 93 then cur # re_split_fields [] cs
      else re_split_fields (cur @ [c]) cs)"

text \<open>
  The body of \<open>for i in range(5, 10)\<close>, for one \<open>i\<close>: the value appended to \<open>row\<close> and
  the new \<open>volume_data\<close>.
  \<^verbatim>\<open>
  if not volume_data and i == 9:
      row.append(0.0); continue
  try:
      row.append(float(xi[i]))
  except (ValueError, IndexError):
      if i == 9:
          volume_data = False; row.append(0.0)
      else:
          row.append(0.0)
  \<close>
\<close>

definition parse_field :: "('f::zero, 't) env \<Rightarrow> bool \<Rightarrow> pystr list \<Rightarrow> nat \<Rightarrow> 'f \<times> bool" where
  "parse_field env volume_data xi i =
     (if \<not> volume_data \<and> i = 9 then (0, volume_data)
      else if i < length xi then
        (case py_float env (xi ! i) of
           Some v \<Rightarrow> (v, volume_data)
         | None \<Rightarrow> if i = 9 then (0, False) else (0, volume_data))
      else if i = 9 then (0, False) else (0, volume_data))"

fun fields_loop ::
  "('f::zero, 't) env \<Rightarrow> pystr list \<Rightarrow> nat list \<Rightarrow> bool \<Rightarrow> 'f list \<Rightarrow> 'f list \<times> bool" where
  "fields_loop env xi [] volume_data row = (row, volume_data)"
| "fields_loop env xi (i # rest) volume_data row =
     (case parse_field env volume_data xi i of
        (v, volume_data') \<Rightarrow> fields_loop env xi rest volume_data' (row @ [v]))"

text \<open>One turn of \<open>for xi in x\<close>: the time stamp is read from position 4 outside any
  \<open>try\<close> of the loop, so a list that is too short raises \<open>IndexError\<close>, a time stamp that is
  no float \<open>ValueError\<close>, and one that \<open>fromtimestamp\<close> rejects raises too.\<close>

definition parse_row ::
  "('f::zero, 't) env \<Rightarrow> bool \<Rightarrow> pystr \<Rightarrow> py_exc + (('t \<times> 'f list) \<times> bool)" where
  "parse_row env volume_data chunk =
     (let xi = re_split_fields [] chunk in
      if length xi \<le> 4 then Inl IndexError
      else (case py_float env (xi ! 4) of
              None \<Rightarrow> Inl ValueError
            | Some f \<Rightarrow>
               (case fromtimestamp env f of
                  None \<Rightarrow> Inl OverflowError
                | Some ts \<Rightarrow>
                   (case fields_loop env xi [5..<10] volume_data [] of
                      (row, volume_data') \<Rightarrow> Inr ((ts, row), volume_data')))))"

fun rows_loop ::
  "('f::zero, 't) env \<Rightarrow> bool \<Rightarrow> ('t \<times> 'f list) list \<Rightarrow> pystr list
     \<Rightarrow> py_exc + ('t \<times> 'f list) list" where
  "rows_loop env volume_data data [] = Inr data"
| "rows_loop env volume_data data (chunk # rest) =
     (case parse_row env volume_data chunk of
        Inl e \<Rightarrow> Inl e
      | Inr (row, volume_data') \<Rightarrow> rows_loop env volume_data' (data @ [row]) rest)"

text \<open>A bar of the returned \<open>DataFrame\<close>: the index \<open>datetime\<close>, the inserted column
  \<open>symbol\<close> and the five parsed columns.  A \<open>DataFrame\<close> is the list of its rows;
  \<open>pd.DataFrame()\<close> is the empty list and \<open>df.empty\<close> is \<open>df = []\<close>.\<close>

record ('f, 't) bar =
  b_datetime :: 't
  b_symbol :: pystr
  b_open :: 'f
  b_high :: 'f
  b_low :: 'f
  b_close :: 'f
  b_volume :: 'f

type_synonym ('f, 't) dataframe = "('f, 't) bar list"

definition make_bar :: "pystr \<Rightarrow> 't \<times> 'f list \<Rightarrow> ('f, 't) bar" where
  "make_bar symbol r =
     \<lparr>b_datetime = fst r, b_symbol = symbol, b_open = snd r ! 0, b_high = snd r ! 1,
      b_low = snd r ! 2, b_close = snd r ! 3, b_volume = snd r ! 4\<rparr>"

text \<open>\<open>__create_df\<close> catches \<open>AttributeError\<close> and \<open>IndexError\<close> only, and returns the
  empty frame for them; any other exception leaves it.\<close>

definition create_df :: "('f::zero, 't) env \<Rightarrow> pystr \<Rightarrow> pystr \<Rightarrow> py_exc + ('f, 't) dataframe" where
  "create_df env raw_data symbol =
     (case re_search_bars raw_data of
        None \<Rightarrow> Inr []
      | Some out \<Rightarrow>
         (case rows_loop env True [] (py_split ([44, 123, 34]) [] out) of
            Inl e \<Rightarrow> if e = AttributeError \<or> e = IndexError then Inr [] else Inl e
          | Inr data \<Rightarrow> Inr (map (make_bar symbol) data)))"

section \<open>\<open>TvDatafeed.get_hist\<close>\<close>

definition max_messages :: nat where
  "max_messages = 100"

text \<open>
  The read loop of one attempt.  It returns the frame when the loop left by
  \<open>return df\<close> (\<open>None\<close> when it left by \<open>break\<close> or because the bound was reached), the
  final \<open>raw_data\<close> and \<open>message_count\<close>, and the state.
  \<^verbatim>\<open>
  while message_count < max_messages:
      try:
          result = self.ws.recv()
          raw_data += result + "\n"
          message_count += 1
          if "series_completed" in result:
              df = self.__create_df(raw_data, formatted_symbol)
              if not df.empty: return df
              break
          elif "series_error" in result:
              break
      except Exception as e:
          break
  \<close>
\<close>

function recv_loop ::
  "('f::zero, 't) env \<Rightarrow> pystr \<Rightarrow> pystr \<Rightarrow> nat \<Rightarrow> state
     \<Rightarrow> ('f, 't) dataframe option \<times> pystr \<times> nat \<times> state" where
  "recv_loop env formatted_symbol raw_data message_count st =
     (if message_count < max_messages then
        (case recv_result env (n_recv st) of
           None \<Rightarrow> (None, raw_data, message_count, st\<lparr>n_recv := Suc (n_recv st)\<rparr>)
         | Some result \<Rightarrow>
            (if py_in (lit ''series_completed'') result then
               (case create_df env (raw_data @ result @ [10]) formatted_symbol of
                  Inr df \<Rightarrow>
                    (if df \<noteq> [] then Some df else None,
                     raw_data @ result @ [10], message_count + 1,
                     st\<lparr>n_recv := Suc (n_recv st)\<rparr>)
                | Inl e \<Rightarrow>
                    (None, raw_data @ result @ [10], message_count + 1,
                     st\<lparr>n_recv := Suc (n_recv st)\<rparr>))
             else if py_in (lit ''series_error'') result then
               (None, raw_data @ result @ [10], message_count + 1,
                st\<lparr>n_recv := Suc (n_recv st)\<rparr>)
             else recv_loop env formatted_symbol (raw_data @ result @ [10])
                    (message_count + 1) (st\<lparr>n_recv := Suc (n_recv st)\<rparr>)))
      else (None, raw_data, message_count, st))"
  by pat_completeness auto
termination
  by (relation "measure (\<lambda>(env, fs, raw, mc, st). max_messages - mc)") auto

declare recv_loop.simps [simp del]

text \<open>
  In the read loop, what \<open>recv\<close> raises is an instance of \<open>Exception\<close>, and so is what
  \<open>__create_df\<close> raises (\<open>ValueError\<close>, \<open>OverflowError\<close>): the handler of the loop catches
  both.

  The \<open>try\<close> block of one turn of \<open>for attempt in range(self.__max_retries)\<close>: connect, the
  nine sends, the read loop.  An exception of \<open>__create_connection\<close> or of a send leaves
  the block (\<open>Inl\<close>); the read loop has its own handler.
\<close>

definition attempt_body ::
  "('f::zero, 't) env \<Rightarrow> pystr \<Rightarrow> (pystr \<times> json list) list \<Rightarrow> state
     \<Rightarrow> (py_exc + ('f, 't) dataframe option) \<times> state" where
  "attempt_body env formatted_symbol msgs st =
     (case create_connection env st of
        (Inl e, st1) \<Rightarrow> (Inl e, st1)
      | (Inr u, st1) \<Rightarrow>
         (case send_all env msgs st1 of
            (Inl e, st2) \<Rightarrow> (Inl e, st2)
          | (Inr u, st2) \<Rightarrow>
             (case recv_loop env formatted_symbol [] 0 st2 of
                (r, raw_data, message_count, st3) \<Rightarrow> (Inr r, st3))))"

text \<open>
  One turn of the loop: the \<open>try\<close> block, its handler and the \<open>finally\<close> block.
  \<open>except Exception as e\<close> catches the instances of \<open>Exception\<close> (it logs them, and the turn
  ends without a frame); an exception of another class would go on to the caller.  The
  \<open>finally\<close> block runs in every case: it closes \<open>self.ws\<close> when the object has one and
  swallows what \<open>close\<close> raises.
  \<^verbatim>\<open>
  try: ...
  except Exception as e:
      logger.error(...)
  finally:
      if hasattr(self, 'ws') and self.ws:
          try: self.ws.close()
          except: pass
  \<close>
\<close>

definition finally_close :: "state \<Rightarrow> state" where
  "finally_close st = (case ws st of None \<Rightarrow> st | Some c \<Rightarrow> st\<lparr>closed := closed st @ [c]\<rparr>)"

definition one_attempt ::
  "('f::zero, 't) env \<Rightarrow> pystr \<Rightarrow> (pystr \<times> json list) list \<Rightarrow> state
     \<Rightarrow> (py_exc + ('f, 't) dataframe option) \<times> state" where
  "one_attempt env formatted_symbol msgs st =
     (case attempt_body env formatted_symbol msgs st of
        (Inl e, st') \<Rightarrow>
          (if isinstance_Exception e then Inr None else Inl e, finally_close st')
      | (Inr r, st') \<Rightarrow> (Inr r, finally_close st'))"

text \<open>The loop over the attempts: it ends with the first frame returned, with the first
  exception that an attempt lets through, or, after the last attempt, with the empty
  frame of \<open>return pd.DataFrame()\<close>.\<close>

fun attempts_loop ::
  "('f::zero, 't) env \<Rightarrow> pystr \<Rightarrow> (pystr \<times> json list) list \<Rightarrow> nat list \<Rightarrow> state
     \<Rightarrow> (py_exc + ('f, 't) dataframe) \<times> state" where
  "attempts_loop env formatted_symbol msgs [] st = (Inr [], st)"
| "attempts_loop env formatted_symbol msgs (attempt # rest) st =
     (case one_attempt env formatted_symbol msgs st of
        (Inl e, st') \<Rightarrow> (Inl e, st')
      | (Inr (Some df), st') \<Rightarrow> (Inr df, st')
      | (Inr None, st') \<Rightarrow> attempts_loop env formatted_symbol msgs rest st')"

text \<open>
  The first statement of \<open>get_hist\<close> prints a line made of the symbol, the exchange, the
  value of the interval and the number of bars; it stands before the \<open>try\<close> block, so what
  \<open>print\<close> raises reaches the caller.
  \<^verbatim>\<open>
  print(f"Fetching historical data for {symbol} (exchange: {exchange}) with interval
          {interval.value} and n_bars {n_bars}")
  \<close>
\<close>

definition print_text :: "pystr \<Rightarrow> pystr \<Rightarrow> interval \<Rightarrow> int \<Rightarrow> pystr" where
  "print_text symbol exchange intv n_bars =
     lit ''Fetching historical data for '' @ symbol @ lit '' (exchange: '' @ exchange
       @ lit '') with interval '' @ interval_value intv @ lit '' and n_bars '' @ str_int n_bars"

definition py_print :: "('f, 't) env \<Rightarrow> pystr \<Rightarrow> state \<Rightarrow> (py_exc + unit) \<times> state" where
  "py_print env line st =
     (case stdout_write env (n_print st) line of
        None \<Rightarrow> (Inr (), st\<lparr>n_print := Suc (n_print st)\<rparr>)
      | Some e \<Rightarrow> (Inl e, st\<lparr>n_print := Suc (n_print st)\<rparr>))"

text \<open>
  \<open>get_hist\<close>: the line is printed, the symbol is formatted and the two session
  identifiers are generated before the loop over the attempts; \<open>exchange\<close> is only printed.
  \<^verbatim>\<open>
  print(...)
  formatted_symbol = self.__format_symbol(symbol, None, fut_contract)
  interval_value = interval.value
  session = self.__generate_session()
  chart_session = self.__generate_chart_session()
  for attempt in range(self.__max_retries):
      try: ...
      except Exception as e: ...
      finally: ...
  return pd.DataFrame()
  \<close>
\<close>

definition get_hist ::
  "('f::zero, 't) env \<Rightarrow> pystr \<Rightarrow> pystr \<Rightarrow> interval \<Rightarrow> int \<Rightarrow> pyval \<Rightarrow> bool \<Rightarrow> state
     \<Rightarrow> (py_exc + ('f, 't) dataframe) \<times> state" where
  "get_hist env symbol exchange intv n_bars fut_contract extended_session st =
     (case py_print env (print_text symbol exchange intv n_bars) st of
        (Inl e, st0) \<Rightarrow> (Inl e, st0)
      | (Inr u, st0) \<Rightarrow>
         (case format_symbol symbol None fut_contract of
            Inl e \<Rightarrow> (Inl e, st0)
          | Inr formatted_symbol \<Rightarrow>
             (case generate_session env st0 of
                (session, st1) \<Rightarrow>
                  (case generate_chart_session env st1 of
                     (chart_session, st2) \<Rightarrow>
                       attempts_loop env formatted_symbol
                         (handshake (token st2) session chart_session formatted_symbol
                            (interval_value intv) n_bars extended_session)
                         [0..<max_retries] st2))))"

section \<open>\<open>TvDatafeed.get_multiple_hist\<close>\<close>



section \<open>\<open>DataFetchThread.run\<close> (\<open>data.py\<close>)\<close>

text \<open>
  The thread talks to its owner through four Qt signals.  A log message is kept as the
  event it reports together with its colour, a progress value as the pair
  \<open>(idx + 1, total_symbols)\<close> from which the source computes the percentage in floating
  point.  The optional number in a log event is the retry round (\<open>None\<close> in the first
  pass): the two passes of the source log the same facts in slightly different words.
\<close>

datatype log_event =
    Fetching "nat option" int pystr nat int
  | Downloaded "nat option" nat pystr
  | No_data "nat option" pystr nat
  | Error_fetching "nat option" pystr nat py_exc
  | Failed_to_download pystr int
  | Retry_round nat nat "pystr list"
  | Final_failures "pystr list"
  | All_fetched nat

datatype ('f, 't) signal =
    Log_message log_event pystr
  | Progress nat nat
  | Data_fetched "pystr \<rightharpoonup> ('f, 't) dataframe"
  | Error_signal pystr

text \<open>The locals of \<open>run\<close> that the loops change, the signals emitted so far and the
  state \<open>'w\<close> of whatever \<open>self.tv\<close> works on.\<close>

record ('f, 't, 'w) run_state =
  results :: "pystr \<rightharpoonup> ('f, 't) dataframe"
  emitted :: "('f, 't) signal list"
  world :: 'w

definition emit :: "('f, 't) signal \<Rightarrow> ('f, 't, 'w) run_state \<Rightarrow> ('f, 't, 'w) run_state" where
  "emit sig rs = rs\<lparr>emitted := emitted rs @ [sig]\<rparr>"

text \<open>\<open>s.replace(old, new)\<close> for an \<open>old\<close> that is not empty (here \<open>f"{self.exchange}:"\<close>),
  and the clean-up of a fetched frame:
  \<^verbatim>\<open>
  df = df.reset_index()
  if "timestamp" in df.columns: df = df.rename(columns={"timestamp": "datetime"})
  if "symbol" in df.columns:
      df["symbol"] = df["symbol"].str.replace(f"{self.exchange}:", "", regex=False)
  \<close>
  The frames of \<open>get_hist\<close> have a column \<open>symbol\<close> and no column \<open>timestamp\<close>.\<close>

fun str_replace :: "pystr \<Rightarrow> pystr \<Rightarrow> pystr \<Rightarrow> pystr" where
  "str_replace old new [] = []"
| "str_replace old new (c # cs) =
     (if starts_with old (c # cs) then new @ str_replace old new (drop (length old - 1) cs)
      else c # str_replace old new cs)"

definition clean_frame :: "pystr \<Rightarrow> ('f, 't) dataframe \<Rightarrow> ('f, 't) dataframe" where
  "clean_frame exchange df =
     map (\<lambda>b. b\<lparr>b_symbol := str_replace (exchange @ lit '':'') [] (b_symbol b)\<rparr>) df"

text \<open>
  The attempts for one symbol, \<open>for attempt in range(self.max_retries)\<close>, in the first
  pass (\<open>rnd = None\<close>) and in a retry round.  \<open>gh\<close> is the call
  \<open>self.tv.get_hist(symbol=symbol, exchange=self.exchange, interval=self.interval,
  n_bars=self.n_bars)\<close> of the object the thread was given.
  \<^verbatim>\<open>
  self.log_message.emit(f"Fetching ... (Attempt {attempt + 1}/{self.max_retries})", ...)
  try:
      df = self.tv.get_hist(...)
      if df is not None and not df.empty:
          ...
          results[symbol] = df
          self.log_message.emit(f"Downloaded {len(df)} rows for {symbol}", ...)
          success = True
          break
      else:
          self.log_message.emit(f"No data for {symbol} (Attempt {attempt + 1})", ...)
  except Exception as e:
      self.log_message.emit(f"Error fetching {symbol} ...: {str(e)}", ...)
  time.sleep(1)
  \<close>
\<close>

fun attempt_symbol ::
  "(pystr \<Rightarrow> 'w \<Rightarrow> (py_exc + ('f, 't) dataframe) \<times> 'w) \<Rightarrow> pystr \<Rightarrow> int \<Rightarrow> int \<Rightarrow> nat option
     \<Rightarrow> pystr \<Rightarrow> nat list \<Rightarrow> ('f, 't, 'w) run_state \<Rightarrow> bool \<times> ('f, 't, 'w) run_state" where
  "attempt_symbol gh exchange n_bars max_tries rnd symbol [] rs = (False, rs)"
| "attempt_symbol gh exchange n_bars max_tries rnd symbol (attempt # rest) rs =
     (let rs1 = emit (Log_message (Fetching rnd n_bars symbol (attempt + 1) max_tries)
                        (lit ''#60a5fa'')) rs
      in case gh symbol (world rs1) of
           (Inr df, w) \<Rightarrow>
             if df \<noteq> [] then
               (True,
                emit (Log_message (Downloaded rnd (length df) symbol) (lit ''#22c55e''))
                  (rs1\<lparr>results := (results rs1)(symbol \<mapsto> clean_frame exchange df),
                       world := w\<rparr>))
             else attempt_symbol gh exchange n_bars max_tries rnd symbol rest
                    (emit (Log_message (No_data rnd symbol (attempt + 1)) (lit ''#ef4444''))
                       (rs1\<lparr>world := w\<rparr>))
         | (Inl e, w) \<Rightarrow>
             attempt_symbol gh exchange n_bars max_tries rnd symbol rest
               (emit (Log_message (Error_fetching rnd symbol (attempt + 1) e) (lit ''#ef4444''))
                  (rs1\<lparr>world := w\<rparr>)))"

text \<open>The first pass, \<open>for idx, symbol in enumerate(self.symbols)\<close>.\<close>

fun first_pass ::
  "(pystr \<Rightarrow> 'w \<Rightarrow> (py_exc + ('f, 't) dataframe) \<times> 'w) \<Rightarrow> pystr \<Rightarrow> int \<Rightarrow> int \<Rightarrow> nat
     \<Rightarrow> (nat \<times> pystr) list \<Rightarrow> pystr list \<Rightarrow> ('f, 't, 'w) run_state
     \<Rightarrow> pystr list \<times> ('f, 't, 'w) run_state" where
  "first_pass gh exchange n_bars max_tries total_symbols [] failed_symbols rs =
     (failed_symbols, rs)"
| "first_pass gh exchange n_bars max_tries total_symbols ((idx, symbol) # rest) failed_symbols rs =
     (case attempt_symbol gh exchange n_bars max_tries None symbol [0..<nat max_tries] rs of
        (success, rs1) \<Rightarrow>
          first_pass gh exchange n_bars max_tries total_symbols rest
            (if success then failed_symbols else failed_symbols @ [symbol])
            (emit (Progress (idx + 1) total_symbols)
               (if success then rs1
                else emit (Log_message (Failed_to_download symbol max_tries) (lit ''#ef4444''))
                       rs1)))"

text \<open>One retry round, \<open>for symbol in failed_symbols\<close>, and the loop over the rounds,
  \<open>while failed_symbols and retry_round <= self.max_retries\<close>.\<close>

fun retry_symbols ::
  "(pystr \<Rightarrow> 'w \<Rightarrow> (py_exc + ('f, 't) dataframe) \<times> 'w) \<Rightarrow> pystr \<Rightarrow> int \<Rightarrow> int \<Rightarrow> nat
     \<Rightarrow> pystr list \<Rightarrow> pystr list \<Rightarrow> ('f, 't, 'w) run_state
     \<Rightarrow> pystr list \<times> ('f, 't, 'w) run_state" where
  "retry_symbols gh exchange n_bars max_tries retry_round [] new_failed rs = (new_failed, rs)"
| "retry_symbols gh exchange n_bars max_tries retry_round (symbol # rest) new_failed rs =
     (case attempt_symbol gh exchange n_bars max_tries (Some retry_round) symbol
             [0..<nat max_tries] rs of
        (success, rs1) \<Rightarrow>
          retry_symbols gh exchange n_bars max_tries retry_round rest
            (if success then new_failed else new_failed @ [symbol]) rs1)"

function retry_rounds ::
  "(pystr \<Rightarrow> 'w \<Rightarrow> (py_exc + ('f, 't) dataframe) \<times> 'w) \<Rightarrow> pystr \<Rightarrow> int \<Rightarrow> int \<Rightarrow> nat
     \<Rightarrow> pystr list \<Rightarrow> ('f, 't, 'w) run_state \<Rightarrow> pystr list \<times> ('f, 't, 'w) run_state" where
  "retry_rounds gh exchange n_bars max_tries retry_round failed_symbols rs =
     (if failed_symbols \<noteq> [] \<and> int retry_round \<le> max_tries then
        (case retry_symbols gh exchange n_bars max_tries retry_round failed_symbols []
                (emit (Log_message
                         (Retry_round retry_round (length failed_symbols) failed_symbols)
                         (lit ''#f59e0b'')) rs) of
           (new_failed, rs1) \<Rightarrow>
             retry_rounds gh exchange n_bars max_tries (retry_round + 1) new_failed rs1)
      else (failed_symbols, rs))"
  by pat_completeness auto
termination
  by (relation "measure (\<lambda>(gh, exchange, n_bars, max_tries, retry_round, failed, rs).
        nat (max_tries + 1 - int retry_round))") auto

declare retry_rounds.simps [simp del]

text \<open>
  The body of \<open>run\<close> up to the last log message, with the final \<open>failed_symbols\<close>, and
  \<open>run\<close> itself: the signals the thread emits, the last of which is
  \<open>self.data_fetched.emit(results)\<close>.  With symbols that are strings and an integer
  \<open>max_retries\<close> nothing in the body raises outside the inner \<open>try\<close>, so the handler
  \<open>except Exception as e: self.error.emit(str(e))\<close> is not entered.
\<close>

definition run_body ::
  "(pystr \<Rightarrow> 'w \<Rightarrow> (py_exc + ('f, 't) dataframe) \<times> 'w) \<Rightarrow> pystr list \<Rightarrow> pystr \<Rightarrow> int \<Rightarrow> int
     \<Rightarrow> 'w \<Rightarrow> pystr list \<times> ('f, 't, 'w) run_state" where
  "run_body gh symbols exchange n_bars max_tries w =
     (case first_pass gh exchange n_bars max_tries (length symbols)
             (zip [0..<length symbols] symbols) []
             \<lparr>results = Map.empty, emitted = [], world = w\<rparr> of
        (failed_symbols, rs1) \<Rightarrow>
          (case retry_rounds gh exchange n_bars max_tries 1 failed_symbols rs1 of
             (failed_symbols', rs2) \<Rightarrow>
               (failed_symbols',
                emit (if failed_symbols' \<noteq> []
                      then Log_message (Final_failures failed_symbols') (lit ''#ef4444'')
                      else Log_message (All_fetched (length symbols)) (lit ''#22c55e''))
                  rs2)))"

definition run ::
  "(pystr \<Rightarrow> 'w \<Rightarrow> (py_exc + ('f, 't) dataframe) \<times> 'w) \<Rightarrow> pystr list \<Rightarrow> pystr \<Rightarrow> int \<Rightarrow> int
     \<Rightarrow> 'w \<Rightarrow> ('f, 't) signal list" where
  "run gh symbols exchange n_bars max_tries w =
     (case run_body gh symbols exchange n_bars max_tries w of
        (failed_symbols, rs) \<Rightarrow> emitted (emit (Data_fetched (results rs)) rs))"

text \<open>The thread as \<open>fetch_data\<close> starts it: \<open>self.tv\<close> is a \<open>TvDatafeed\<close>.\<close>

definition tv_get_hist ::
  "('f::zero, 't) env \<Rightarrow> pystr \<Rightarrow> interval \<Rightarrow> int \<Rightarrow> pystr \<Rightarrow> state
     \<Rightarrow> (py_exc + ('f, 't) dataframe) \<times> state" where
  "tv_get_hist env exchange intv n_bars symbol st =
     get_hist env symbol exchange intv n_bars PyNone False st"

fun is_log :: "('f, 't) signal \<Rightarrow> bool" where
  "is_log (Log_message ev colour) = True"
| "is_log (Progress i n) = False"
| "is_log (Data_fetched r) = False"
| "is_log (Error_signal m) = False"

section \<open>Notions for the properties, and example environments\<close>

text \<open>Concrete environments on which the model is run: floats are stood for by the
  integers, \<open>float\<close> by the reader of unsigned decimal numerals, every time stamp is
  accepted, and \<open>print\<close> writes every text.\<close>

definition demo_float :: "pystr \<Rightarrow> int option" where
  "demo_float s =
     (if s \<noteq> [] \<and> list_all is_digit s then Some (int (nat_of_digits s)) else None)"

definition demo_env ::
  "(nat \<Rightarrow> bool) \<Rightarrow> (nat \<Rightarrow> bool) \<Rightarrow> (nat \<Rightarrow> pystr option) \<Rightarrow> (int, int) env" where
  "demo_env opens sends recvs =
     \<lparr>open_ok = opens, send_ok = sends, recv_result = recvs, random_choice = (\<lambda>k. k),
      py_float = demo_float, fromtimestamp = Some, stdout_write = (\<lambda>k line. None)\<rparr>"

definition init_state :: state where
  "init_state =
     \<lparr>token = lit ''unauthorized_user_token'', ws = None, n_open = 0, n_recv = 0,
      n_rand = 0, sent = [], closed = [], n_print = 0\<rparr>"

text \<open>A standard output with the encoding UTF-8 and the error handler \<open>strict\<close>: it
  writes every text but those with a surrogate code point (\<open>U+D800\<close> to \<open>U+DFFF\<close>), for
  which \<open>print\<close> raises \<open>UnicodeEncodeError\<close>.\<close>

definition utf8_stdout :: "nat \<Rightarrow> pystr \<Rightarrow> py_exc option" where
  "utf8_stdout k line =
     (if list_ex (\<lambda>c. 55296 \<le> c \<and> c \<le> 57343) line then Some UnicodeEncodeError else None)"

text \<open>A string of printable ASCII characters.\<close>

definition printable :: "pystr \<Rightarrow> bool" where
  "printable s = list_all (\<lambda>c. 32 \<le> c \<and> c \<le> 126) s"

text \<open>The frame of one \<open>__send_message(func, args)\<close> call, and the function names in the
  order in which the specification lists them.\<close>

definition frame_of :: "pystr \<times> json list \<Rightarrow> pystr" where
  "frame_of call = create_message (fst call) (snd call)"

definition send_order :: "pystr list" where
  "send_order = map lit
     [''set_auth_token'', ''chart_create_session'', ''quote_create_session'',
      ''quote_set_fields'', ''quote_add_symbols'', ''quote_fast_symbols'',
      ''resolve_symbol'', ''create_series'', ''switch_timezone'']"

text \<open>The text accumulated by the read loop after \<open>j\<close> receives that started at receive
  number \<open>k0\<close>: every received message followed by a newline.\<close>

definition accum :: "('f, 't) env \<Rightarrow> nat \<Rightarrow> nat \<Rightarrow> pystr" where
  "accum env k0 j =
     concat (map (\<lambda>i. case recv_result env (k0 + i) of Some m \<Rightarrow> m @ [10] | None \<Rightarrow> [])
               [0..<j])"

text \<open>A run of \<open>get_hist\<close> in which every connection opens, every message is sent and
  the first receive of every attempt raises.\<close>

definition silent_env :: "(int, int) env" where
  "silent_env = demo_env (\<lambda>k. True) (\<lambda>k. True) (\<lambda>k. None)"

definition silent_run :: state where
  "silent_run =
     snd (get_hist silent_env (lit ''A'') (lit ''NSE'') in_daily 10 PyNone False init_state)"

text \<open>A transport that answers every attempt with one ordinary message and then with a
  message carrying \<open>series_error\<close>.\<close>

definition error_env :: "(int, int) env" where
  "error_env = demo_env (\<lambda>k. True) (\<lambda>k. True)
     (\<lambda>k. if even k then Some (lit ''hello'') else Some (lit ''~m~12~m~series_error''))"

text \<open>
  Words for the parser's fields.  \<open>field_parses\<close>: position \<open>i\<close> of the tokens exists and
  \<open>float\<close> accepts it; \<open>field_value\<close>: the float read there, \<open>0.0\<close> when there is none;
  \<open>timestamp_ok\<close>: position 4 exists, is a float and is accepted by \<open>fromtimestamp\<close>, and
  \<open>row_timestamp\<close> is the time stamp then.  \<open>expected_rows\<close> lists, for the chunks of one
  series, the time stamp and the five values of every record, the volume being read
  only as long as it could be read in every record so far.
\<close>

definition field_parses :: "('f, 't) env \<Rightarrow> pystr list \<Rightarrow> nat \<Rightarrow> bool" where
  "field_parses env xi i =
     (i < length xi \<and> (case py_float env (xi ! i) of None \<Rightarrow> False | Some v \<Rightarrow> True))"

definition field_value :: "('f::zero, 't) env \<Rightarrow> pystr list \<Rightarrow> nat \<Rightarrow> 'f" where
  "field_value env xi i =
     (if i < length xi then (case py_float env (xi ! i) of None \<Rightarrow> 0 | Some v \<Rightarrow> v) else 0)"


definition row_timestamp :: "('f, 't) env \<Rightarrow> pystr list \<Rightarrow> 't" where
  "row_timestamp env xi = the (fromtimestamp env (the (py_float env (xi ! 4))))"

fun expected_rows :: "('f::zero, 't) env \<Rightarrow> bool \<Rightarrow> pystr list \<Rightarrow> ('t \<times> 'f list) list" where
  "expected_rows env volume_data [] = []"
| "expected_rows env volume_data (chunk # rest) =
     (row_timestamp env (re_split_fields [] chunk),
      [field_value env (re_split_fields [] chunk) 5, field_value env (re_split_fields [] chunk) 6,
       field_value env (re_split_fields [] chunk) 7, field_value env (re_split_fields [] chunk) 8,
       if volume_data \<and> field_parses env (re_split_fields [] chunk) 9
       then field_value env (re_split_fields [] chunk) 9 else 0])
     # expected_rows env (volume_data \<and> field_parses env (re_split_fields [] chunk) 9) rest"



text \<open>A transport on which no connection ever opens.\<close>

definition closed_env :: "(int, int) env" where
  "closed_env = demo_env (\<lambda>k. False) (\<lambda>k. True) (\<lambda>k. None)"

text \<open>A transport that answers every receive with a message that ends the series and
  whose only bar has the time stamp \<open>x\<close>, on which \<open>float\<close> raises \<open>ValueError\<close>.\<close>

definition bad_stamp_message :: pystr where
  "bad_stamp_message =
     [34] @ lit ''s'' @ [34] @ lit '':[{'' @ [34] @ lit ''i'' @ [34] @ lit '':0,'' @ [34]
       @ lit ''v'' @ [34] @ lit '':[x]}]series_completed''"

definition garbled_env :: "(int, int) env" where
  "garbled_env = demo_env (\<lambda>k. True) (\<lambda>k. True) (\<lambda>k. Some bad_stamp_message)"

text \<open>The signals that carry the result of the thread, and what the loops of \<open>run\<close>
  keep true of its state for a set \<open>S\<close> of symbols: no result has been emitted yet, and
  \<open>results\<close> maps symbols of \<open>S\<close> only, each to a frame that is not empty.\<close>

fun is_output :: "('f, 't) signal \<Rightarrow> bool" where
  "is_output (Log_message ev colour) = False"
| "is_output (Progress i n) = False"
| "is_output (Data_fetched r) = True"
| "is_output (Error_signal m) = True"

definition run_inv :: "pystr set \<Rightarrow> ('f, 't, 'w) run_state \<Rightarrow> bool" where
  "run_inv S rs =
     (list_all (\<lambda>s. \<not> is_output s) (emitted rs) \<and> dom (results rs) \<subseteq> S
      \<and> (\<forall>s df. results rs s = Some df \<longrightarrow> df \<noteq> []))"

section \<open>Properties\<close>

subsection \<open>Strings\<close>

lemma starts_with_iff: "starts_with p s \<longleftrightarrow> (\<exists>r. s = p @ r)"
  by (induction p s rule: starts_with.induct) auto

lemma py_in_single: "py_in [x] s \<longleftrightarrow> x \<in> set s"
  by (induction s) auto

lemma lit_colon: "lit '':'' = [58]"
  by (simp add: lit_def)

lemma hex_digit_ascii: "32 \<le> hex_digit (k mod 16) \<and> hex_digit (k mod 16) \<le> 126"
proof -
  have "k mod 16 < 16" by simp
  then show ?thesis unfolding hex_digit_def by presburger
qed

lemma hex4_ascii: "x \<in> set (hex4 n) \<Longrightarrow> 32 \<le> x \<and> x \<le> 126"
  unfolding hex4_def using hex_digit_ascii by auto

lemma escape_char_ascii: "x \<in> set (escape_char c) \<Longrightarrow> 32 \<le> x \<and> x \<le> 126"
proof -
  assume x: "x \<in> set (escape_char c)"
  consider "c \<in> {92, 34, 8, 12, 10, 13, 9}"
    | "c \<notin> {92, 34, 8, 12, 10, 13, 9}" "32 \<le> c \<and> c \<le> 126"
    | "c \<notin> {92, 34, 8, 12, 10, 13, 9}" "\<not> (32 \<le> c \<and> c \<le> 126)" "c < 65536"
    | "c \<notin> {92, 34, 8, 12, 10, 13, 9}" "\<not> (32 \<le> c \<and> c \<le> 126)" "\<not> c < 65536"
    by blast
  then show ?thesis
  proof cases
    case 1
    then show ?thesis using x by (auto simp: escape_char_def)
  next
    case 2
    then show ?thesis using x by (simp add: escape_char_def)
  next
    case 3
    then have "x = 92 \<or> x = 117 \<or> x \<in> set (hex4 c)"
      using x by (auto simp: escape_char_def split: if_splits)
    then show ?thesis using hex4_ascii by auto
  next
    case 4
    then have "x = 92 \<or> x = 117
        \<or> x \<in> set (hex4 (55296 + (c - 65536) div 1024 mod 1024))
        \<or> x \<in> set (hex4 (56320 + (c - 65536) mod 1024))"
      using x by (auto simp: escape_char_def split: if_splits)
    then show ?thesis using hex4_ascii by auto
  qed
qed

lemma printable_Nil [simp]: "printable []"
  by (simp add: printable_def)

lemma printable_append [simp]: "printable (a @ b) = (printable a \<and> printable b)"
  by (simp add: printable_def)

lemma printable_lit_simps [simp]:
  "printable (lit ''null'')" "printable (lit ''true'')" "printable (lit ''false'')"
  "printable (lit ''['')" "printable (lit '']'')" "printable (lit ''{'')" "printable (lit ''}'')"
  "printable (lit '','')" "printable (lit '':'')" "printable (lit ''-'')" "printable (lit ''~m~'')"
  by (simp_all add: printable_def lit_def)

lemma printable_digits [simp]: "printable (digits n)"
proof (induction n rule: digits.induct)
  case (1 n)
  have "n mod 10 < 10" by simp
  then have "32 \<le> 48 + n mod 10 \<and> 48 + n mod 10 \<le> 126" by linarith
  then show ?case using 1 by (subst digits.simps) (auto simp: printable_def)
qed

lemma printable_str_int [simp]: "printable (str_int i)"
  by (simp add: str_int_def)

lemma printable_encode [simp]: "printable (encode_basestring_ascii s)"
  using escape_char_ascii
  by (auto simp: encode_basestring_ascii_def printable_def list_all_iff)

lemma printable_join: "printable sep \<Longrightarrow> list_all printable xs \<Longrightarrow> printable (join sep xs)"
  by (induction sep xs rule: join.induct) auto

lemma printable_dumps [simp]: "printable (dumps v)"
proof (induction v rule: dumps.induct)
  case (5 xs)
  then show ?case by (auto intro!: printable_join simp: list_all_iff)
next
  case (6 kvs)
  then show ?case by (auto intro!: printable_join simp: list_all_iff)
qed simp_all

lemma byte_length_printable: "printable s \<Longrightarrow> byte_length s = length s"
  by (induction s) (auto simp: printable_def byte_length_def utf8_len_def)

lemma is_digit_digits: "list_all is_digit (digits n)"
proof (induction n rule: digits.induct)
  case (1 n)
  have "n mod 10 < 10" by simp
  then have "is_digit (48 + n mod 10)" unfolding is_digit_def by linarith
  then show ?case using 1 by (subst digits.simps) auto
qed

lemma digits_nonempty: "digits n \<noteq> []"
  by (subst digits.simps) simp

lemma nat_of_digits_digits: "nat_of_digits (digits n) = n"
proof (induction n rule: digits.induct)
  case (1 n)
  show ?case
  proof (cases "n < 10")
    case True
    then show ?thesis by (subst digits.simps) (simp add: nat_of_digits_def)
  next
    case False
    then have "nat_of_digits (digits (n div 10)) = n div 10" using 1 by simp
    then show ?thesis using False
      by (subst digits.simps) (simp add: nat_of_digits_def)
  qed
qed

lemma lit_frame: "lit ''~m~'' = [126, 109, 126]"
  by (simp add: lit_def)

lemma decode_frame_header:
  "decode_frame (lit ''~m~'' @ digits n @ lit ''~m~'' @ payload) =
     (if byte_length payload = n then Some (n, payload) else None)"
proof -
  have all: "\<And>x. x \<in> set (digits n) \<Longrightarrow> is_digit x"
    using is_digit_digits [of n] by (simp add: list_all_iff)
  have tw: "takeWhile is_digit (digits n @ 126 # 109 # 126 # payload) = digits n"
    using all by (simp add: takeWhile_append2 is_digit_def)
  have dw: "dropWhile is_digit (digits n @ 126 # 109 # 126 # payload) = 126 # 109 # 126 # payload"
    using all by (simp add: dropWhile_append2 is_digit_def)
  show ?thesis
    unfolding decode_frame_def lit_frame
    by (simp add: tw dw digits_nonempty nat_of_digits_digits Let_def)
qed

subsection \<open>The formatted symbol\<close>

text \<open>
  C8.  For every symbol, every exchange argument and every futures-contract argument of
  the declared type (\<open>None\<close> or an integer), \<open>__format_symbol\<close> returns the symbol unchanged
  when it contains \<open>:\<close>, otherwise the symbol followed by the contract index and \<open>!\<close> when
  an index is given, otherwise the symbol unchanged.  The exchange argument never enters
  the result, and \<open>get_hist\<close> as a whole depends on its exchange argument through the
  line it prints only: two exchanges whose lines \<open>print\<close> treats alike give the same
  result and the same state.
\<close>

theorem format_symbol_rule:
  "format_symbol symbol exchange (case c of None \<Rightarrow> PyNone | Some n \<Rightarrow> PyInt n) =
     Inr (if 58 \<in> set symbol then symbol
          else case c of None \<Rightarrow> symbol | Some n \<Rightarrow> symbol @ str_int n @ lit ''!'')
   \<and> (stdout_write env (n_print st) (print_text symbol exchange' intv n_bars)
         = stdout_write env (n_print st) (print_text symbol exchange'' intv n_bars) \<longrightarrow>
       get_hist env symbol exchange' intv n_bars fut_contract extended_session st =
       get_hist env symbol exchange'' intv n_bars fut_contract extended_session st)"
  by (simp add: format_symbol_def get_hist_def py_print_def lit_colon py_in_single
      split: option.splits)

theorem format_symbol_rule_witness:
  "format_symbol (lit ''NSE:RELIANCE'') (Some (lit ''BSE'')) (PyInt 1) = Inr (lit ''NSE:RELIANCE'')
   \<and> format_symbol (lit ''ES'') (Some (lit ''CME'')) (PyInt 1) = Inr (lit ''ES1!'')
   \<and> format_symbol (lit ''ES'') (Some (lit ''CME'')) PyNone = Inr (lit ''ES'')
   \<and> get_hist closed_env (lit ''ES'') (lit ''CME'') in_daily 10 PyNone False init_state =
     get_hist closed_env (lit ''ES'') (lit ''NSE'') in_daily 10 PyNone False init_state"
  using format_symbol_rule [THEN conjunct1, of "lit ''NSE:RELIANCE''" "Some (lit ''BSE'')" "Some 1"]
    format_symbol_rule [THEN conjunct1, of "lit ''ES''" "Some (lit ''CME'')" "Some 1"]
    format_symbol_rule [THEN conjunct1, of "lit ''ES''" "Some (lit ''CME'')" None]
    format_symbol_rule [where env = closed_env and st = init_state
      and symbol = "lit ''ES''" and exchange' = "lit ''CME''" and exchange'' = "lit ''NSE''"
      and intv = in_daily and n_bars = 10 and fut_contract = PyNone and extended_session = False,
      THEN conjunct2]
  by (simp add: lit_def str_int_def digits.simps closed_env_def demo_env_def)

subsection \<open>Frames\<close>

text \<open>
  C5.  For every function name and parameter list, the message is \<open>~m~\<close>, the decimal
  number \<open>L\<close>, \<open>~m~\<close> and \<open>J\<close>, where \<open>J\<close> is the serialisation of \<open>{m: function, p: params}\<close>
  with the separators \<open>,\<close> and \<open>:\<close> and no white space between the tokens, and \<open>L\<close> is the
  number of bytes of \<open>J\<close>: \<open>J\<close> consists of printable ASCII characters only, so the number
  of its characters, which the code writes, is the number of its bytes.  Reading the
  length prefix back gives exactly that length and that payload.
\<close>

theorem create_message_frame:
  "create_message func params =
     lit ''~m~'' @ digits (byte_length (construct_message func params)) @ lit ''~m~''
       @ construct_message func params
   \<and> construct_message func params =
     lit ''{'' @ [34] @ lit ''m'' @ [34] @ lit '':'' @ encode_basestring_ascii func
       @ lit '','' @ [34] @ lit ''p'' @ [34] @ lit '':['' @ join (lit '','') (map dumps params)
       @ lit '']}''
   \<and> printable (construct_message func params)
   \<and> decode_frame (create_message func params) =
     Some (byte_length (construct_message func params), construct_message func params)"
proof -
  let ?J = "construct_message func params"
  have p: "printable ?J" unfolding construct_message_def by (rule printable_dumps)
  then have len: "byte_length ?J = length ?J" by (rule byte_length_printable)
  have frame: "create_message func params = lit ''~m~'' @ digits (byte_length ?J) @ lit ''~m~'' @ ?J"
    by (simp add: create_message_def prepend_header_def len)
  have shape: "?J = lit ''{'' @ [34] @ lit ''m'' @ [34] @ lit '':'' @ encode_basestring_ascii func
       @ lit '','' @ [34] @ lit ''p'' @ [34] @ lit '':['' @ join (lit '','') (map dumps params)
       @ lit '']}''"
    by (simp add: construct_message_def encode_basestring_ascii_def escape_char_def lit_def)
  have "decode_frame (create_message func params) = Some (byte_length ?J, ?J)"
    by (simp add: frame decode_frame_header)
  with p frame shape show ?thesis by blast
qed

subsection \<open>A transport that never opens\<close>

lemma format_symbol_typed:
  "format_symbol symbol None (case c of None \<Rightarrow> PyNone | Some n \<Rightarrow> PyInt n) =
     Inr (if 58 \<in> set symbol then symbol
          else case c of None \<Rightarrow> symbol | Some n \<Rightarrow> symbol @ str_int n @ lit ''!'')"
  by (simp add: format_symbol_def lit_colon py_in_single split: option.splits)

lemma create_connection_loop_fails:
  "\<forall>k. \<not> open_ok env k \<Longrightarrow>
   create_connection_loop env xs st = (Inl Exception, st\<lparr>n_open := n_open st + length xs\<rparr>)"
  by (induction xs arbitrary: st) simp_all

lemma one_attempt_never_opens:
  "\<forall>k. \<not> open_ok env k \<Longrightarrow>
   one_attempt env fs msgs st =
     (Inr None, st\<lparr>n_open := n_open st + max_retries,
               closed := closed st @ (case ws st of None \<Rightarrow> [] | Some c \<Rightarrow> [c])\<rparr>)"
  by (simp add: one_attempt_def attempt_body_def create_connection_def
      create_connection_loop_fails finally_close_def split: option.splits)

lemma attempts_loop_never_opens:
  "\<forall>k. \<not> open_ok env k \<Longrightarrow>
   attempts_loop env fs msgs xs st =
     (Inr [], st\<lparr>n_open := n_open st + max_retries * length xs,
             closed := closed st @ (case ws st of None \<Rightarrow> [] | Some c \<Rightarrow> replicate (length xs) c)\<rparr>)"
proof (induction xs arbitrary: st)
  case Nil
  then show ?case by (simp split: option.splits)
next
  case (Cons x xs)
  then show ?case
    by (simp add: one_attempt_never_opens add.assoc split: option.splits)
qed

lemma get_hist_never_opens:
  assumes "\<forall>k. \<not> open_ok env k"
    and "format_symbol symbol None c = Inr fs"
    and "stdout_write env (n_print st) (print_text symbol exchange intv n_bars) = None"
  shows "get_hist env symbol exchange intv n_bars c ext st =
     (Inr [], st\<lparr>n_print := Suc (n_print st), n_rand := n_rand st + 24,
                 n_open := n_open st + max_retries * max_retries,
                 closed := closed st @ (case ws st of None \<Rightarrow> [] | Some c \<Rightarrow> replicate max_retries c)\<rparr>)"
  using assms
  by (simp add: get_hist_def py_print_def generate_session_def generate_chart_session_def
      attempts_loop_never_opens split: option.splits)

lemma closed_env_never_opens: "\<forall>k. \<not> open_ok closed_env k"
  by (simp add: closed_env_def demo_env_def)

lemma demo_env_stdout [simp]: "stdout_write (demo_env opens sends recvs) k line = None"
  by (simp add: demo_env_def)

lemma closed_env_stdout [simp]: "stdout_write closed_env k line = None"
  by (simp add: closed_env_def)

subsection \<open>What \<open>get_hist\<close> returns\<close>

text \<open>The exceptions that leave the \<open>try\<close> block are instances of \<open>Exception\<close>, so the
  handler of the attempt catches every one of them and no attempt raises.\<close>

lemma create_connection_loop_raises:
  "fst (create_connection_loop env xs st) = Inl e \<Longrightarrow> e = Exception"
  by (induction xs arbitrary: st) (auto split: if_splits)

lemma send_all_raises:
  "fst (send_all env msgs st) = Inl e \<Longrightarrow> e = WebSocketError"
proof (induction msgs arbitrary: st)
  case Nil
  then show ?case by simp
next
  case (Cons call msgs)
  obtain func args where call: "call = (func, args)" by (cases call)
  show ?case
    using Cons by (auto simp: call send_message_def Let_def split: if_splits)
qed

lemma attempt_body_raises:
  assumes "fst (attempt_body env fs msgs st) = Inl e"
  shows "isinstance_Exception e"
proof -
  obtain r1 st1 where c: "create_connection env st = (r1, st1)" by (cases "create_connection env st")
  show ?thesis
  proof (cases r1)
    case (Inl e1)
    then have "e1 = Exception"
      using c create_connection_loop_raises [of env "[0..<max_retries]" st e1]
      by (simp add: create_connection_def)
    then show ?thesis using assms c Inl by (simp add: attempt_body_def)
  next
    case (Inr u)
    obtain r2 st2 where s: "send_all env msgs st1 = (r2, st2)" by (cases "send_all env msgs st1")
    show ?thesis
    proof (cases r2)
      case (Inl e2)
      then have "e2 = WebSocketError" using s send_all_raises [of env msgs st1 e2] by simp
      then show ?thesis using assms c s Inl \<open>r1 = Inr u\<close> by (simp add: attempt_body_def)
    next
      case (Inr u2)
      then show ?thesis
        using assms c s \<open>r1 = Inr u\<close> by (simp add: attempt_body_def split: prod.splits)
    qed
  qed
qed

lemma one_attempt_catches:
  "fst (attempt_body env fs msgs st) = Inl e \<Longrightarrow> fst (one_attempt env fs msgs st) = Inr None"
  using attempt_body_raises [of env fs msgs st e]
  by (cases "attempt_body env fs msgs st") (simp add: one_attempt_def)

lemma one_attempt_returns: "\<exists>r. fst (one_attempt env fs msgs st) = Inr r"
proof (cases "fst (attempt_body env fs msgs st)")
  case (Inl e)
  then show ?thesis using one_attempt_catches by blast
next
  case (Inr r)
  then show ?thesis
    by (cases "attempt_body env fs msgs st") (simp add: one_attempt_def)
qed

lemma attempts_loop_returns: "\<exists>df. fst (attempts_loop env fs msgs xs st) = Inr df"
proof (induction xs arbitrary: st)
  case Nil
  show ?case by simp
next
  case (Cons x xs)
  obtain r st1 where o: "one_attempt env fs msgs st = (Inr r, st1)"
    using one_attempt_returns [of env fs msgs st] by (cases "one_attempt env fs msgs st") auto
  show ?case
  proof (cases r)
    case None
    then show ?thesis using o Cons.IH [of st1] by simp
  next
    case (Some df)
    then show ?thesis using o by simp
  qed
qed

lemma format_symbol_returns:
  "58 \<in> set symbol \<or> c = PyNone \<or> isinstance_int c \<Longrightarrow> \<exists>fs. format_symbol symbol None c = Inr fs"
  by (auto simp: format_symbol_def lit_colon py_in_single)

lemma get_hist_returns:
  assumes "stdout_write env (n_print st) (print_text symbol exchange intv n_bars) = None"
    and "format_symbol symbol None c = Inr fs"
  shows "\<exists>df. fst (get_hist env symbol exchange intv n_bars c ext st) = Inr df"
  using assms attempts_loop_returns
  by (simp add: get_hist_def py_print_def generate_session_def generate_chart_session_def)

text \<open>
  C1, as amended.  \<open>get_hist\<close> lets two exceptions reach its caller, both raised before
  the \<open>try\<close> block and before anything is opened or sent: the exception of its first
  statement, \<open>print\<close>, when that raises (\<open>UnicodeEncodeError\<close> when the standard output
  cannot encode the symbol or the exchange), and, when the line is printed, \<open>ValueError\<close>
  for a symbol without \<open>:\<close> and a \<open>fut_contract\<close> that is neither \<open>None\<close> nor an instance of
  \<open>int\<close>.  In every other case (the line is printed, and the symbol contains \<open>:\<close> or
  \<open>fut_contract\<close> is \<open>None\<close> or an instance of \<open>int\<close>) it returns a frame, populated or
  empty, whatever the transport and the parser do: an exception that leaves the \<open>try\<close>
  block of an attempt (the connection cannot be opened, a message cannot be sent) is an
  instance of \<open>Exception\<close>, the handler of the attempt catches it, and the attempt ends
  without a frame and without raising; a receive or a parse that fails ends the read loop.
\<close>

theorem get_hist_outcome:
  "(stdout_write env (n_print st) (print_text symbol exchange intv n_bars) = Some e \<longrightarrow>
      get_hist env symbol exchange intv n_bars fut_contract extended_session st
        = (Inl e, st\<lparr>n_print := Suc (n_print st)\<rparr>))
   \<and> (stdout_write env (n_print st) (print_text symbol exchange intv n_bars) = None
        \<and> \<not> (58 \<in> set symbol \<or> fut_contract = PyNone \<or> isinstance_int fut_contract) \<longrightarrow>
      get_hist env symbol exchange intv n_bars fut_contract extended_session st
        = (Inl ValueError, st\<lparr>n_print := Suc (n_print st)\<rparr>))
   \<and> (stdout_write env (n_print st) (print_text symbol exchange intv n_bars) = None
        \<and> (58 \<in> set symbol \<or> fut_contract = PyNone \<or> isinstance_int fut_contract) \<longrightarrow>
      (\<exists>df. fst (get_hist env symbol exchange intv n_bars fut_contract extended_session st)
              = Inr df))
   \<and> (fst (attempt_body env fs msgs st') = Inl e' \<longrightarrow>
        isinstance_Exception e' \<and> fst (one_attempt env fs msgs st') = Inr None)
   \<and> (recv_result env (n_recv st') = None \<and> message_count < max_messages \<longrightarrow>
        fst (recv_loop env fs raw_data message_count st') = None)
   \<and> (recv_result env (n_recv st') = Some result \<and> message_count < max_messages
        \<and> py_in (lit ''series_completed'') result
        \<and> create_df env (raw_data @ result @ [10]) fs = Inl e'' \<longrightarrow>
        fst (recv_loop env fs raw_data message_count st') = None)"
proof -
  have a: "stdout_write env (n_print st) (print_text symbol exchange intv n_bars) = Some e \<longrightarrow>
      get_hist env symbol exchange intv n_bars fut_contract extended_session st
        = (Inl e, st\<lparr>n_print := Suc (n_print st)\<rparr>)"
    by (simp add: get_hist_def py_print_def)
  have b: "stdout_write env (n_print st) (print_text symbol exchange intv n_bars) = None
        \<and> \<not> (58 \<in> set symbol \<or> fut_contract = PyNone \<or> isinstance_int fut_contract) \<longrightarrow>
      get_hist env symbol exchange intv n_bars fut_contract extended_session st
        = (Inl ValueError, st\<lparr>n_print := Suc (n_print st)\<rparr>)"
    by (simp add: get_hist_def py_print_def format_symbol_def lit_colon py_in_single)
  have c: "stdout_write env (n_print st) (print_text symbol exchange intv n_bars) = None
        \<and> (58 \<in> set symbol \<or> fut_contract = PyNone \<or> isinstance_int fut_contract) \<longrightarrow>
      (\<exists>df. fst (get_hist env symbol exchange intv n_bars fut_contract extended_session st)
              = Inr df)"
    using format_symbol_returns [of symbol fut_contract]
      get_hist_returns [of env st symbol exchange intv n_bars fut_contract _ extended_session]
    by blast
  have d: "fst (attempt_body env fs msgs st') = Inl e' \<longrightarrow>
        isinstance_Exception e' \<and> fst (one_attempt env fs msgs st') = Inr None"
    using attempt_body_raises [of env fs msgs st' e'] one_attempt_catches [of env fs msgs st' e']
    by blast
  have f: "recv_result env (n_recv st') = None \<and> message_count < max_messages \<longrightarrow>
        fst (recv_loop env fs raw_data message_count st') = None"
    by (subst recv_loop.simps) simp
  have g: "recv_result env (n_recv st') = Some result \<and> message_count < max_messages
        \<and> py_in (lit ''series_completed'') result
        \<and> create_df env (raw_data @ result @ [10]) fs = Inl e'' \<longrightarrow>
        fst (recv_loop env fs raw_data message_count st') = None"
    by (subst recv_loop.simps) simp
  from a b c d f g show ?thesis by blast
qed

text \<open>Runs for the theorem: a symbol that a standard output in UTF-8 cannot encode; a
  contract that is a string; a transport on which no connection opens, whose exception
  leaves the \<open>try\<close> block and is caught; a transport that opens and refuses every message;
  a transport that opens, sends and fails at the first receive; a transport whose answer
  makes \<open>__create_df\<close> raise \<open>ValueError\<close>.\<close>

theorem get_hist_outcome_witness:
  "get_hist (closed_env\<lparr>stdout_write := utf8_stdout\<rparr>) [55296] (lit ''NSE'') in_daily 10 PyNone
      False init_state = (Inl UnicodeEncodeError, init_state\<lparr>n_print := 1\<rparr>)
   \<and> get_hist closed_env (lit ''ES'') (lit ''CME'') in_daily 10 (PyStr (lit ''1'')) False
      init_state = (Inl ValueError, init_state\<lparr>n_print := 1\<rparr>)
   \<and> (\<exists>df. fst (get_hist closed_env (lit ''ES'') (lit ''CME'') in_daily 10 (PyInt 1) False
              init_state) = Inr df)
   \<and> fst (attempt_body closed_env (lit ''ES1!'') [] init_state) = Inl Exception
   \<and> fst (one_attempt closed_env (lit ''ES1!'') [] init_state) = Inr None
   \<and> (\<exists>df. fst (get_hist (demo_env (\<lambda>k. True) (\<lambda>k. False) (\<lambda>k. None)) (lit ''ES'') (lit ''CME'')
              in_daily 10 (PyInt 1) False init_state) = Inr df)
   \<and> recv_result silent_env (n_recv init_state) = None
   \<and> fst (recv_loop silent_env (lit ''ES1!'') [] 0 init_state) = None
   \<and> (\<exists>df. fst (get_hist silent_env (lit ''ES'') (lit ''CME'') in_daily 10 (PyInt 1) False
              init_state) = Inr df)
   \<and> create_df garbled_env ([] @ bad_stamp_message @ [10]) (lit ''ES1!'') = Inl ValueError
   \<and> fst (recv_loop garbled_env (lit ''ES1!'') [] 0 init_state) = None
   \<and> (\<exists>df. fst (get_hist garbled_env (lit ''ES'') (lit ''CME'') in_daily 10 (PyInt 1) False
              init_state) = Inr df)"
proof -
  have n: "n_print init_state = 0" by (simp add: init_state_def)
  have u: "stdout_write (closed_env\<lparr>stdout_write := utf8_stdout\<rparr>) (n_print init_state)
      (print_text [55296] (lit ''NSE'') in_daily 10) = Some UnicodeEncodeError"
    by (simp add: utf8_stdout_def print_text_def)
  have v: "\<not> (58 \<in> set (lit ''ES'') \<or> PyStr (lit ''1'') = PyNone
      \<or> isinstance_int (PyStr (lit ''1'')))"
    by (simp add: lit_def)
  have t: "58 \<in> set (lit ''ES'') \<or> PyInt 1 = PyNone \<or> isinstance_int (PyInt 1)"
    by simp
  have x: "fst (attempt_body closed_env (lit ''ES1!'') [] init_state) = Inl Exception"
    by (simp add: attempt_body_def create_connection_def
        create_connection_loop_fails [OF closed_env_never_opens])
  have r: "recv_result silent_env (n_recv init_state) = None"
    by (simp add: silent_env_def demo_env_def)
  have m: "(0::nat) < max_messages" by (simp add: max_messages_def)
  have w1: "get_hist (closed_env\<lparr>stdout_write := utf8_stdout\<rparr>) [55296] (lit ''NSE'') in_daily 10
      PyNone False init_state = (Inl UnicodeEncodeError, init_state\<lparr>n_print := 1\<rparr>)"
    using u get_hist_outcome [where env = "closed_env\<lparr>stdout_write := utf8_stdout\<rparr>"
        and st = init_state and symbol = "[55296]" and exchange = "lit ''NSE''"
        and intv = in_daily and n_bars = 10 and fut_contract = PyNone
        and extended_session = False and e = UnicodeEncodeError, THEN conjunct1]
    by (simp add: n)
  have w2: "get_hist closed_env (lit ''ES'') (lit ''CME'') in_daily 10 (PyStr (lit ''1'')) False
      init_state = (Inl ValueError, init_state\<lparr>n_print := 1\<rparr>)"
    using v get_hist_outcome [where env = closed_env and st = init_state
        and symbol = "lit ''ES''" and exchange = "lit ''CME''" and intv = in_daily
        and n_bars = 10 and fut_contract = "PyStr (lit ''1'')" and extended_session = False,
        THEN conjunct2, THEN conjunct1]
    by (simp add: n)
  have w3: "\<exists>df. fst (get_hist closed_env (lit ''ES'') (lit ''CME'') in_daily 10 (PyInt 1) False
              init_state) = Inr df"
    using t get_hist_outcome [where env = closed_env and st = init_state
        and symbol = "lit ''ES''" and exchange = "lit ''CME''" and intv = in_daily
        and n_bars = 10 and fut_contract = "PyInt 1" and extended_session = False,
        THEN conjunct2, THEN conjunct2, THEN conjunct1]
    by simp
  have w4: "fst (one_attempt closed_env (lit ''ES1!'') [] init_state) = Inr None"
    using x get_hist_outcome [where env = closed_env and fs = "lit ''ES1!''" and msgs = "[]"
        and st' = init_state and e' = Exception,
        THEN conjunct2, THEN conjunct2, THEN conjunct2, THEN conjunct1]
    by simp
  have w5: "\<exists>df. fst (get_hist (demo_env (\<lambda>k. True) (\<lambda>k. False) (\<lambda>k. None)) (lit ''ES'')
              (lit ''CME'') in_daily 10 (PyInt 1) False init_state) = Inr df"
    using t get_hist_outcome [where env = "demo_env (\<lambda>k. True) (\<lambda>k. False) (\<lambda>k. None)"
        and st = init_state
        and symbol = "lit ''ES''" and exchange = "lit ''CME''" and intv = in_daily
        and n_bars = 10 and fut_contract = "PyInt 1" and extended_session = False,
        THEN conjunct2, THEN conjunct2, THEN conjunct1]
    by simp
  have w6: "fst (recv_loop silent_env (lit ''ES1!'') [] 0 init_state) = None"
    using r m get_hist_outcome [where env = silent_env and fs = "lit ''ES1!''"
        and st' = init_state and message_count = 0 and raw_data = "[]",
        THEN conjunct2, THEN conjunct2, THEN conjunct2, THEN conjunct2, THEN conjunct1]
    by simp
  have w7: "\<exists>df. fst (get_hist silent_env (lit ''ES'') (lit ''CME'') in_daily 10 (PyInt 1) False
              init_state) = Inr df"
    using t get_hist_outcome [where env = silent_env and st = init_state
        and symbol = "lit ''ES''" and exchange = "lit ''CME''" and intv = in_daily
        and n_bars = 10 and fut_contract = "PyInt 1" and extended_session = False,
        THEN conjunct2, THEN conjunct2, THEN conjunct1]
    by (simp add: silent_env_def)
  have y: "create_df garbled_env ([] @ bad_stamp_message @ [10]) (lit ''ES1!'') = Inl ValueError"
    by (simp add: create_df_def bad_stamp_message_def lit_def parse_row_def garbled_env_def
        demo_env_def demo_float_def is_digit_def Let_def)
  have z: "recv_result garbled_env (n_recv init_state) = Some bad_stamp_message"
    "py_in (lit ''series_completed'') bad_stamp_message"
    by (simp_all add: garbled_env_def demo_env_def bad_stamp_message_def lit_def)
  have w8: "fst (recv_loop garbled_env (lit ''ES1!'') [] 0 init_state) = None"
    using y z m get_hist_outcome [where env = garbled_env and fs = "lit ''ES1!''"
        and st' = init_state and message_count = 0 and raw_data = "[]"
        and result = bad_stamp_message and e'' = ValueError,
        THEN conjunct2, THEN conjunct2, THEN conjunct2, THEN conjunct2, THEN conjunct2]
    by blast
  have w9: "\<exists>df. fst (get_hist garbled_env (lit ''ES'') (lit ''CME'') in_daily 10 (PyInt 1) False
              init_state) = Inr df"
    using t get_hist_outcome [where env = garbled_env and st = init_state
        and symbol = "lit ''ES''" and exchange = "lit ''CME''" and intv = in_daily
        and n_bars = 10 and fut_contract = "PyInt 1" and extended_session = False,
        THEN conjunct2, THEN conjunct2, THEN conjunct1]
    by (simp add: garbled_env_def)
  from w1 w2 w3 x w4 w5 r w6 w7 y w8 w9 show ?thesis by blast
qed

text \<open>The claim as the specification states it fails on two inputs: on a symbol that
  the standard output cannot encode, and on a contract that is a string.  In both runs
  the exception reaches the caller and no connection is opened.\<close>

theorem get_hist_raises_counterexample:
  "get_hist (closed_env\<lparr>stdout_write := utf8_stdout\<rparr>) [55296] (lit ''NSE'') in_daily 10 PyNone
      False init_state = (Inl UnicodeEncodeError, init_state\<lparr>n_print := 1\<rparr>)
   \<and> get_hist (demo_env (\<lambda>k. True) (\<lambda>k. True) (\<lambda>k. None)) (lit ''ES'') (lit ''CME'')
      in_daily 10 (PyStr (lit ''1'')) False init_state
       = (Inl ValueError, init_state\<lparr>n_print := 1\<rparr>)"
  by (simp add: get_hist_def py_print_def utf8_stdout_def print_text_def format_symbol_def
      lit_def init_state_def)

subsection \<open>The number of connection attempts\<close>

text \<open>
  C2, as amended.  If opening the connection fails at every call, then \<open>get_hist\<close> (with a
  \<open>fut_contract\<close> that is \<open>None\<close> or an integer, and once its line is printed) calls
  \<open>create_connection\<close> \<open>max_retries * max_retries\<close> times, that is nine times: each of its
  \<open>max_retries\<close> attempts runs \<open>__create_connection\<close>, which tries \<open>max_retries\<close> times
  itself.  It returns the empty frame and raises nothing.
\<close>

theorem get_hist_open_always_fails:
  assumes "\<forall>k. \<not> open_ok env k"
    and "stdout_write env (n_print st) (print_text symbol exchange intv n_bars) = None"
  shows "fst (get_hist env symbol exchange intv n_bars
                (case c of None \<Rightarrow> PyNone | Some n \<Rightarrow> PyInt n) extended_session st) = Inr []
    \<and> n_open (snd (get_hist env symbol exchange intv n_bars
                (case c of None \<Rightarrow> PyNone | Some n \<Rightarrow> PyInt n) extended_session st))
        = n_open st + max_retries * max_retries"
  using get_hist_never_opens [OF assms(1) format_symbol_typed assms(2)] by simp

theorem get_hist_open_always_fails_witness:
  "fst (get_hist (demo_env (\<lambda>k. False) (\<lambda>k. True) (\<lambda>k. None)) (lit ''RELIANCE'') (lit ''NSE'')
          in_daily 5 PyNone False init_state) = Inr []
   \<and> n_open (snd (get_hist (demo_env (\<lambda>k. False) (\<lambda>k. True) (\<lambda>k. None)) (lit ''RELIANCE'')
          (lit ''NSE'') in_daily 5 PyNone False init_state)) = 9"
proof -
  have h: "\<forall>k. \<not> open_ok (demo_env (\<lambda>k. False) (\<lambda>k. True) (\<lambda>k. None)) k"
    by (simp add: demo_env_def)
  have p: "stdout_write (demo_env (\<lambda>k. False) (\<lambda>k. True) (\<lambda>k. None)) (n_print init_state)
      (print_text (lit ''RELIANCE'') (lit ''NSE'') in_daily 5) = None"
    by (simp add: demo_env_def)
  show ?thesis
    using get_hist_open_always_fails [OF h p, of None False]
    by (simp add: init_state_def max_retries_def)
qed

theorem get_hist_open_attempts_counterexample:
  "n_open (snd (get_hist (demo_env (\<lambda>k. False) (\<lambda>k. True) (\<lambda>k. None)) (lit ''RELIANCE'')
          (lit ''NSE'') in_daily 5 PyNone False init_state)) = 9
   \<and> max_retries = 3"
proof -
  have h: "\<forall>k. \<not> open_ok (demo_env (\<lambda>k. False) (\<lambda>k. True) (\<lambda>k. None)) k"
    by (simp add: demo_env_def)
  have f: "format_symbol (lit ''RELIANCE'') None PyNone = Inr (lit ''RELIANCE'')"
    by (simp add: format_symbol_def lit_def)
  have p: "stdout_write (demo_env (\<lambda>k. False) (\<lambda>k. True) (\<lambda>k. None)) (n_print init_state)
      (print_text (lit ''RELIANCE'') (lit ''NSE'') in_daily 5) = None"
    by (simp add: demo_env_def)
  show ?thesis
    unfolding get_hist_never_opens [OF h f p]
    by (simp add: init_state_def max_retries_def)
qed

subsection \<open>What one call of \<open>get_hist\<close> sends\<close>

lemma create_connection_loop_state:
  "create_connection_loop env xs st = (r, st') \<Longrightarrow> \<exists>w n. st' = st\<lparr>ws := w, n_open := n\<rparr>"
proof (induction xs arbitrary: st)
  case Nil
  then have "st' = st\<lparr>ws := ws st, n_open := n_open st\<rparr>" by simp
  then show ?case by blast
next
  case (Cons x xs)
  show ?case
  proof (cases "open_ok env (n_open st)")
    case True
    then show ?thesis using Cons.prems by auto
  next
    case False
    then obtain w n where "st' = st\<lparr>n_open := Suc (n_open st)\<rparr>\<lparr>ws := w, n_open := n\<rparr>"
      using Cons by fastforce
    then have "st' = st\<lparr>ws := w, n_open := n\<rparr>" by simp
    then show ?thesis by blast
  qed
qed

lemma recv_loop_state:
  "recv_loop env fs raw mc st = (r, raw', mc', st') \<Longrightarrow> \<exists>n. st' = st\<lparr>n_recv := n\<rparr>"
proof (induction env fs raw mc st arbitrary: r raw' mc' st' rule: recv_loop.induct)
  case (1 env fs raw mc st)
  show ?case
  proof (cases "mc < max_messages")
    case False
    then have "st' = st\<lparr>n_recv := n_recv st\<rparr>"
      using "1.prems" by (subst (asm) recv_loop.simps) simp
    then show ?thesis by blast
  next
    case True
    show ?thesis
    proof (cases "recv_result env (n_recv st)")
      case None
      then show ?thesis
        using "1.prems" True by (subst (asm) recv_loop.simps) auto
    next
      case (Some result)
      show ?thesis
      proof (cases "py_in (lit ''series_completed'') result \<or> py_in (lit ''series_error'') result")
        case True
        then show ?thesis
          using "1.prems" \<open>mc < max_messages\<close> Some
          by (subst (asm) recv_loop.simps) (auto split: sum.splits if_splits)
      next
        case False
        then have "recv_loop env fs (raw @ result @ [10]) (mc + 1) (st\<lparr>n_recv := Suc (n_recv st)\<rparr>)
            = (r, raw', mc', st')"
          using "1.prems" \<open>mc < max_messages\<close> Some
          by (subst (asm) recv_loop.simps) simp
        then obtain n where "st' = st\<lparr>n_recv := Suc (n_recv st)\<rparr>\<lparr>n_recv := n\<rparr>"
          using "1.IH" [OF \<open>mc < max_messages\<close> Some] False by blast
        then have "st' = st\<lparr>n_recv := n\<rparr>" by simp
        then show ?thesis by blast
      qed
    qed
  qed
qed

lemma send_all_sent:
  "send_all env msgs st = (r, st') \<Longrightarrow>
   \<exists>k\<le>length msgs. st' = st\<lparr>sent := sent st @ map frame_of (take k msgs)\<rparr>
      \<and> (r = Inr () \<longrightarrow> k = length msgs)"
proof (induction msgs arbitrary: st)
  case Nil
  then show ?case by simp
next
  case (Cons call msgs)
  obtain func args where call: "call = (func, args)" by (cases call)
  let ?st1 = "st\<lparr>sent := sent st @ [create_message func args]\<rparr>"
  show ?case
  proof (cases "send_ok env (length (sent st))")
    case False
    then have "st' = st\<lparr>sent := sent st @ map frame_of (take 1 (call # msgs))\<rparr>" "r \<noteq> Inr ()"
      using Cons.prems call by (auto simp: send_message_def frame_of_def Let_def)
    then show ?thesis by (intro exI [of _ 1]) simp
  next
    case True
    then have "send_all env msgs ?st1 = (r, st')"
      using Cons.prems call by (simp add: send_message_def Let_def)
    then obtain k where k: "k \<le> length msgs"
      "st' = ?st1\<lparr>sent := sent ?st1 @ map frame_of (take k msgs)\<rparr>"
      "r = Inr () \<longrightarrow> k = length msgs"
      using Cons.IH by blast
    then have "st' = st\<lparr>sent := sent st @ map frame_of (take (Suc k) (call # msgs))\<rparr>"
      by (simp add: call frame_of_def)
    then show ?thesis using k by (intro exI [of _ "Suc k"]) simp
  qed
qed

lemma send_all_ok:
  "\<forall>i<length msgs. send_ok env (length (sent st) + i) \<Longrightarrow> fst (send_all env msgs st) = Inr ()"
proof (induction msgs arbitrary: st)
  case Nil
  then show ?case by simp
next
  case (Cons call msgs)
  obtain func args where call: "call = (func, args)" by (cases call)
  have ok: "send_ok env (length (sent st))" using Cons.prems by force
  have "\<forall>i<length msgs. send_ok env (length (sent (st\<lparr>sent := sent st @ [create_message func args]\<rparr>)) + i)"
    using Cons.prems by force
  then show ?case using Cons.IH ok call by (simp add: send_message_def Let_def)
qed

lemma one_attempt_sent:
  "\<exists>k\<le>length msgs. sent (snd (one_attempt env fs msgs st)) = sent st @ map frame_of (take k msgs)
     \<and> n_rand (snd (one_attempt env fs msgs st)) = n_rand st
     \<and> token (snd (one_attempt env fs msgs st)) = token st"
proof -
  obtain r1 st1 where c: "create_connection env st = (r1, st1)" by (cases "create_connection env st")
  then obtain w n where st1: "st1 = st\<lparr>ws := w, n_open := n\<rparr>"
    unfolding create_connection_def using create_connection_loop_state by blast
  have fc: "\<And>s. sent (finally_close s) = sent s \<and> n_rand (finally_close s) = n_rand s
      \<and> token (finally_close s) = token s"
    by (simp add: finally_close_def split: option.splits)
  show ?thesis
  proof (cases r1)
    case (Inl e)
    then have "snd (one_attempt env fs msgs st) = finally_close st1"
      using c by (simp add: one_attempt_def attempt_body_def)
    then show ?thesis using fc st1 by (intro exI [of _ 0]) simp
  next
    case (Inr u)
    obtain r2 st2 where s: "send_all env msgs st1 = (r2, st2)" by (cases "send_all env msgs st1")
    then obtain k where k: "k \<le> length msgs"
      "st2 = st1\<lparr>sent := sent st1 @ map frame_of (take k msgs)\<rparr>"
      using send_all_sent by blast
    show ?thesis
    proof (cases r2)
      case (Inl e)
      then have "snd (one_attempt env fs msgs st) = finally_close st2"
        using c s Inr by (simp add: one_attempt_def attempt_body_def)
      then show ?thesis using fc st1 k by (intro exI [of _ k]) simp
    next
      case (Inr u2)
      obtain r3 raw mc st3 where l: "recv_loop env fs [] 0 st2 = (r3, raw, mc, st3)"
        by (cases "recv_loop env fs [] 0 st2") auto
      then obtain m where st3: "st3 = st2\<lparr>n_recv := m\<rparr>" using recv_loop_state by blast
      have "snd (one_attempt env fs msgs st) = finally_close st3"
        using c s l Inr \<open>r1 = Inr u\<close> by (simp add: one_attempt_def attempt_body_def)
      then show ?thesis using fc st1 k st3 by (intro exI [of _ k]) simp
    qed
  qed
qed

lemma attempts_loop_sent:
  "\<exists>ks. length ks \<le> length xs \<and> list_all (\<lambda>k. k \<le> length msgs) ks
     \<and> sent (snd (attempts_loop env fs msgs xs st))
         = sent st @ concat (map (\<lambda>k. map frame_of (take k msgs)) ks)
     \<and> n_rand (snd (attempts_loop env fs msgs xs st)) = n_rand st"
proof (induction xs arbitrary: st)
  case Nil
  show ?case by (intro exI [of _ "[]"]) simp
next
  case (Cons x xs)
  obtain r st1 where o: "one_attempt env fs msgs st = (r, st1)" by (cases "one_attempt env fs msgs st")
  obtain k where k: "k \<le> length msgs" "sent st1 = sent st @ map frame_of (take k msgs)"
    "n_rand st1 = n_rand st"
    using one_attempt_sent [of msgs env fs st] o by auto
  have stop: "snd (attempts_loop env fs msgs (x # xs) st) = st1 \<Longrightarrow> ?case"
    using k by (intro exI [of _ "[k]"]) simp
  show ?case
  proof (cases r)
    case (Inl e)
    then have "snd (attempts_loop env fs msgs (x # xs) st) = st1" using o by simp
    then show ?thesis by (rule stop)
  next
    case (Inr v)
    show ?thesis
    proof (cases v)
      case (Some df)
      then have "snd (attempts_loop env fs msgs (x # xs) st) = st1" using o Inr by simp
      then show ?thesis by (rule stop)
    next
      case None
      then have eq: "attempts_loop env fs msgs (x # xs) st = attempts_loop env fs msgs xs st1"
        using o Inr by simp
      obtain ks where ks: "length ks \<le> length xs" "list_all (\<lambda>k. k \<le> length msgs) ks"
        "sent (snd (attempts_loop env fs msgs xs st1))
           = sent st1 @ concat (map (\<lambda>k. map frame_of (take k msgs)) ks)"
        "n_rand (snd (attempts_loop env fs msgs xs st1)) = n_rand st1"
        using Cons.IH by blast
      then show ?thesis using k eq by (intro exI [of _ "k # ks"]) simp
    qed
  qed
qed

lemma get_hist_sent:
  assumes "format_symbol symbol None fut_contract = Inr fs"
    and "stdout_write env (n_print st) (print_text symbol exchange intv n_bars) = None"
  shows "\<exists>ks. length ks \<le> max_retries \<and> list_all (\<lambda>k. k \<le> 9) ks
     \<and> sent (snd (get_hist env symbol exchange intv n_bars fut_contract ext st))
         = sent st @ concat (map (\<lambda>k. map frame_of (take k
             (handshake (token st) (lit ''qs_'' @ random_string env (n_rand st) 12)
                (lit ''cs_'' @ random_string env (n_rand st + 12) 12) fs
                (interval_value intv) n_bars ext))) ks)
     \<and> n_rand (snd (get_hist env symbol exchange intv n_bars fut_contract ext st))
         = n_rand st + 24"
proof -
  let ?hs = "handshake (token st) (lit ''qs_'' @ random_string env (n_rand st) 12)
                (lit ''cs_'' @ random_string env (n_rand st + 12) 12) fs
                (interval_value intv) n_bars ext"
  let ?st2 = "st\<lparr>n_print := Suc (n_print st), n_rand := n_rand st + 12 + 12\<rparr>"
  have len: "length ?hs = 9" by (simp add: handshake_def)
  have g: "snd (get_hist env symbol exchange intv n_bars fut_contract ext st)
      = snd (attempts_loop env fs ?hs [0..<max_retries] ?st2)"
    using assms
    by (simp add: get_hist_def py_print_def generate_session_def generate_chart_session_def
        split: prod.splits)
  obtain ks where ks: "length ks \<le> length [0..<max_retries]"
    "list_all (\<lambda>k. k \<le> length ?hs) ks"
    "sent (snd (attempts_loop env fs ?hs [0..<max_retries] ?st2))
       = sent ?st2 @ concat (map (\<lambda>k. map frame_of (take k ?hs)) ks)"
    "n_rand (snd (attempts_loop env fs ?hs [0..<max_retries] ?st2)) = n_rand ?st2"
    using attempts_loop_sent [of "[0..<max_retries]" ?hs env fs ?st2] by blast
  show ?thesis
    unfolding g using ks len by (intro exI [of _ ks]) simp
qed

lemma get_hist_sent_frames:
  assumes "format_symbol symbol None fut_contract = Inr fs"
  shows "\<exists>ks. list_all (\<lambda>k. k \<le> 9) ks
     \<and> sent (snd (get_hist env symbol exchange intv n_bars fut_contract ext st))
         = sent st @ concat (map (\<lambda>k. map frame_of (take k
             (handshake (token st) (lit ''qs_'' @ random_string env (n_rand st) 12)
                (lit ''cs_'' @ random_string env (n_rand st + 12) 12) fs
                (interval_value intv) n_bars ext))) ks)"
proof (cases "stdout_write env (n_print st) (print_text symbol exchange intv n_bars)")
  case None
  then show ?thesis using get_hist_sent [OF assms None] by blast
next
  case (Some e)
  then have "snd (get_hist env symbol exchange intv n_bars fut_contract ext st)
      = st\<lparr>n_print := Suc (n_print st)\<rparr>"
    by (simp add: get_hist_def py_print_def)
  then show ?thesis by (intro exI [of _ "[]"]) simp
qed

subsection \<open>A transport that opens and sends but never answers\<close>

lemma send_all_all_ok:
  "\<forall>k. send_ok env k \<Longrightarrow>
   send_all env msgs st = (Inr (), st\<lparr>sent := sent st @ map frame_of msgs\<rparr>)"
proof (induction msgs arbitrary: st)
  case Nil
  then show ?case by simp
next
  case (Cons call msgs)
  obtain func args where call: "call = (func, args)" by (cases call)
  show ?case
    using Cons by (simp add: call send_message_def Let_def frame_of_def)
qed

lemma one_attempt_silent:
  assumes "\<forall>k. open_ok env k" "\<forall>k. send_ok env k" "\<forall>k. recv_result env k = None"
  shows "one_attempt env fs msgs st =
     (Inr None, st\<lparr>ws := Some (n_open st), n_open := Suc (n_open st),
               sent := sent st @ map frame_of msgs, n_recv := Suc (n_recv st),
               closed := closed st @ [n_open st]\<rparr>)"
proof -
  have c: "create_connection env st
      = (Inr (), st\<lparr>ws := Some (n_open st), n_open := Suc (n_open st)\<rparr>)"
    using assms(1) by (simp add: create_connection_def max_retries_def upt_rec)
  have r: "\<And>s. recv_loop env fs [] 0 s = (None, [], 0, s\<lparr>n_recv := Suc (n_recv s)\<rparr>)"
    using assms(3) by (subst recv_loop.simps) (simp add: max_messages_def)
  show ?thesis
    by (simp add: one_attempt_def attempt_body_def c send_all_all_ok [OF assms(2)] r
        finally_close_def)
qed

lemma get_hist_silent:
  assumes "\<forall>k. open_ok env k" "\<forall>k. send_ok env k" "\<forall>k. recv_result env k = None"
    and "format_symbol symbol None fut_contract = Inr fs"
    and "stdout_write env (n_print st) (print_text symbol exchange intv n_bars) = None"
  shows "get_hist env symbol exchange intv n_bars fut_contract ext st =
     (Inr [],
      st\<lparr>n_print := Suc (n_print st),
         n_rand := n_rand st + 24, ws := Some (n_open st + 2), n_open := n_open st + 3,
         sent := sent st @ concat (replicate 3 (map frame_of
           (handshake (token st) (lit ''qs_'' @ random_string env (n_rand st) 12)
              (lit ''cs_'' @ random_string env (n_rand st + 12) 12) fs
              (interval_value intv) n_bars ext))),
         n_recv := n_recv st + 3,
         closed := closed st @ [n_open st, n_open st + 1, n_open st + 2]\<rparr>)"
  using assms(4,5)
  by (simp add: get_hist_def py_print_def generate_session_def generate_chart_session_def
      one_attempt_silent [OF assms(1-3)] max_retries_def upt_rec numeral_3_eq_3)

lemma silent_env_ok:
  "\<forall>k. open_ok silent_env k" "\<forall>k. send_ok silent_env k" "\<forall>k. recv_result silent_env k = None"
  by (simp_all add: silent_env_def demo_env_def)

lemma silent_ids:
  "lit ''qs_'' @ random_string silent_env 0 12 = lit ''qs_abcdefghijkl''"
  "lit ''cs_'' @ random_string silent_env 12 12 = lit ''cs_mnopqrstuvwx''"
  by (simp_all add: random_string_def silent_env_def demo_env_def ascii_lowercase_def lit_def
      upt_rec)

lemma silent_env_stdout [simp]: "stdout_write silent_env k line = None"
  by (simp add: silent_env_def)

lemma silent_run_eq:
  "silent_run =
     init_state\<lparr>n_print := 1, n_rand := 24, ws := Some 2, n_open := 3,
       sent := concat (replicate 3 (map frame_of
         (handshake (lit ''unauthorized_user_token'') (lit ''qs_abcdefghijkl'')
            (lit ''cs_mnopqrstuvwx'') (lit ''A'') (lit ''1D'') 10 False))),
       n_recv := 3, closed := [0, 1, 2]\<rparr>"
proof -
  have f: "format_symbol (lit ''A'') None PyNone = Inr (lit ''A'')"
    by (simp add: format_symbol_def lit_def)
  have p: "stdout_write silent_env (n_print init_state)
      (print_text (lit ''A'') (lit ''NSE'') in_daily 10) = None"
    by simp
  have i: "n_rand init_state = 0" "n_open init_state = 0" "n_recv init_state = 0"
    "sent init_state = []" "closed init_state = []" "n_print init_state = 0"
    "token init_state = lit ''unauthorized_user_token''"
    by (simp_all add: init_state_def)
  show ?thesis
    unfolding silent_run_def
    by (simp add: get_hist_silent [OF silent_env_ok f p] i silent_ids)
qed

subsection \<open>Session identifiers\<close>

text \<open>
  C4, as amended.  One call of \<open>get_hist\<close> (once its line is printed and its symbol
  formatted) generates one quote-session identifier and
  one chart-session identifier, from 24 new random choices made before the loop over the
  attempts, and every attempt of that call sends its messages with this same pair: what
  the call hands to \<open>ws.send\<close> is, attempt after attempt, an initial part of the same nine
  messages.  A new pair is generated by every call of \<open>get_hist\<close>, hence for every symbol.
\<close>

theorem get_hist_session_ids:
  assumes "format_symbol symbol None fut_contract = Inr fs"
    and "stdout_write env (n_print st) (print_text symbol exchange intv n_bars) = None"
  shows "\<exists>ks. length ks \<le> max_retries
     \<and> sent (snd (get_hist env symbol exchange intv n_bars fut_contract extended_session st))
         = sent st @ concat (map (\<lambda>k. map frame_of (take k
             (handshake (token st) (lit ''qs_'' @ random_string env (n_rand st) 12)
                (lit ''cs_'' @ random_string env (n_rand st + 12) 12) fs
                (interval_value intv) n_bars extended_session))) ks)
     \<and> n_rand (snd (get_hist env symbol exchange intv n_bars fut_contract extended_session st))
         = n_rand st + 24"
  using get_hist_sent [OF assms] by blast

theorem get_hist_session_ids_witness:
  "format_symbol (lit ''A'') None PyNone = Inr (lit ''A'')
   \<and> (\<exists>ks. length ks \<le> max_retries
     \<and> sent silent_run
         = sent init_state @ concat (map (\<lambda>k. map frame_of (take k
             (handshake (token init_state)
                (lit ''qs_'' @ random_string silent_env (n_rand init_state) 12)
                (lit ''cs_'' @ random_string silent_env (n_rand init_state + 12) 12) (lit ''A'')
                (interval_value in_daily) 10 False))) ks)
     \<and> n_rand silent_run = n_rand init_state + 24)"
proof -
  have f: "format_symbol (lit ''A'') None PyNone = Inr (lit ''A'')"
    by (simp add: format_symbol_def lit_def)
  have p: "stdout_write silent_env (n_print init_state)
      (print_text (lit ''A'') (lit ''NSE'') in_daily 10) = None"
    by simp
  show ?thesis
    unfolding silent_run_def
    using f get_hist_session_ids [OF f p, of False]
    by blast
qed

theorem session_ids_reused_counterexample:
  "closed silent_run = [0, 1, 2] \<and> length (sent silent_run) = 27 \<and> n_rand silent_run = 24
   \<and> sent silent_run ! 1
       = create_message (lit ''chart_create_session'') [JStr (lit ''cs_mnopqrstuvwx''), JStr []]
   \<and> sent silent_run ! 10
       = create_message (lit ''chart_create_session'') [JStr (lit ''cs_mnopqrstuvwx''), JStr []]
   \<and> sent silent_run ! 2
       = create_message (lit ''quote_create_session'') [JStr (lit ''qs_abcdefghijkl'')]
   \<and> sent silent_run ! 11
       = create_message (lit ''quote_create_session'') [JStr (lit ''qs_abcdefghijkl'')]"
  by (simp add: silent_run_eq handshake_def frame_of_def numeral_3_eq_3)

subsection \<open>The order of the messages\<close>

lemma one_attempt_complete:
  assumes "fst (create_connection env st) = Inr ()"
    and "\<forall>i<length msgs. send_ok env (length (sent st) + i)"
  shows "sent (snd (one_attempt env fs msgs st)) = sent st @ map frame_of msgs"
proof -
  obtain st1 where c: "create_connection env st = (Inr (), st1)"
    using assms(1) by (cases "create_connection env st") auto
  then obtain w n where st1: "st1 = st\<lparr>ws := w, n_open := n\<rparr>"
    unfolding create_connection_def using create_connection_loop_state by blast
  then have "\<forall>i<length msgs. send_ok env (length (sent st1) + i)" using assms(2) by simp
  then have "fst (send_all env msgs st1) = Inr ()" by (rule send_all_ok)
  then obtain st2 where s: "send_all env msgs st1 = (Inr (), st2)"
    by (cases "send_all env msgs st1") auto
  then have st2: "st2 = st1\<lparr>sent := sent st1 @ map frame_of msgs\<rparr>"
    using send_all_sent [OF s] by auto
  obtain r3 raw mc st3 where l: "recv_loop env fs [] 0 st2 = (r3, raw, mc, st3)"
    by (cases "recv_loop env fs [] 0 st2") auto
  then obtain m where st3: "st3 = st2\<lparr>n_recv := m\<rparr>" using recv_loop_state by blast
  have "snd (one_attempt env fs msgs st) = finally_close st3"
    using c s l by (simp add: one_attempt_def attempt_body_def)
  then show ?thesis
    using st1 st2 st3 by (simp add: finally_close_def split: option.splits)
qed

text \<open>
  C7.  The nine messages of an attempt are, in this order, \<open>set_auth_token\<close>,
  \<open>chart_create_session\<close>, \<open>quote_create_session\<close>, \<open>quote_set_fields\<close>,
  \<open>quote_add_symbols\<close>, \<open>quote_fast_symbols\<close>, \<open>resolve_symbol\<close>, \<open>create_series\<close>,
  \<open>switch_timezone\<close>.  What an attempt hands to \<open>ws.send\<close> is an initial part of this
  sequence (an attempt stops sending at the first failure), and the whole sequence when
  the connection opens and the nine sends succeed; all that a call of \<open>get_hist\<close> sends
  is made of such initial parts, one for each attempt.
\<close>

theorem attempt_send_order:
  "map fst (handshake tok session chart_session fs iv n_bars extended_session) = send_order
   \<and> (\<exists>k\<le>9. sent (snd (one_attempt env fs
                  (handshake tok session chart_session fs iv n_bars extended_session) st))
        = sent st @ map frame_of
            (take k (handshake tok session chart_session fs iv n_bars extended_session)))
   \<and> (fst (create_connection env st) = Inr () \<and> (\<forall>i<9. send_ok env (length (sent st) + i))
        \<longrightarrow> sent (snd (one_attempt env fs
                  (handshake tok session chart_session fs iv n_bars extended_session) st))
        = sent st @ map frame_of
            (handshake tok session chart_session fs iv n_bars extended_session))
   \<and> (format_symbol symbol None fut_contract = Inr fs \<longrightarrow>
        (\<exists>ks. list_all (\<lambda>k. k \<le> 9) ks
          \<and> sent (snd (get_hist env symbol exchange intv n_bars fut_contract extended_session st))
            = sent st @ concat (map (\<lambda>k. map frame_of (take k
                (handshake (token st) (lit ''qs_'' @ random_string env (n_rand st) 12)
                   (lit ''cs_'' @ random_string env (n_rand st + 12) 12) fs
                   (interval_value intv) n_bars extended_session))) ks)))"
proof -
  let ?hs = "handshake tok session chart_session fs iv n_bars extended_session"
  have len: "length ?hs = 9" by (simp add: handshake_def)
  have a: "map fst ?hs = send_order" by (simp add: handshake_def send_order_def)
  have b: "\<exists>k\<le>9. sent (snd (one_attempt env fs ?hs st)) = sent st @ map frame_of (take k ?hs)"
    using one_attempt_sent [of ?hs env fs st] unfolding len by blast
  have c: "fst (create_connection env st) = Inr () \<and> (\<forall>i<9. send_ok env (length (sent st) + i))
        \<longrightarrow> sent (snd (one_attempt env fs ?hs st)) = sent st @ map frame_of ?hs"
    using one_attempt_complete [of env st ?hs fs] unfolding len by blast
  have d: "format_symbol symbol None fut_contract = Inr fs \<longrightarrow>
        (\<exists>ks. list_all (\<lambda>k. k \<le> 9) ks
          \<and> sent (snd (get_hist env symbol exchange intv n_bars fut_contract extended_session st))
            = sent st @ concat (map (\<lambda>k. map frame_of (take k
                (handshake (token st) (lit ''qs_'' @ random_string env (n_rand st) 12)
                   (lit ''cs_'' @ random_string env (n_rand st + 12) 12) fs
                   (interval_value intv) n_bars extended_session))) ks))"
    using get_hist_sent_frames [of symbol fut_contract fs env exchange intv n_bars extended_session st]
    by blast
  from a b c d show ?thesis by blast
qed

theorem attempt_send_order_witness:
  "fst (create_connection silent_env init_state) = Inr ()
   \<and> sent (snd (one_attempt silent_env (lit ''A'')
             (handshake (lit ''unauthorized_user_token'') (lit ''qs_abcdefghijkl'')
                (lit ''cs_mnopqrstuvwx'') (lit ''A'') (lit ''1D'') 10 False) init_state))
       = map frame_of (handshake (lit ''unauthorized_user_token'') (lit ''qs_abcdefghijkl'')
                (lit ''cs_mnopqrstuvwx'') (lit ''A'') (lit ''1D'') 10 False)
   \<and> map fst (handshake (lit ''unauthorized_user_token'') (lit ''qs_abcdefghijkl'')
                (lit ''cs_mnopqrstuvwx'') (lit ''A'') (lit ''1D'') 10 False) = send_order"
proof -
  have c: "fst (create_connection silent_env init_state) = Inr ()"
    using silent_env_ok(1) by (simp add: create_connection_def max_retries_def upt_rec)
  have s: "\<forall>i<9. send_ok silent_env (length (sent init_state) + i)"
    using silent_env_ok(2) by simp
  show ?thesis
    using c s attempt_send_order [of "lit ''unauthorized_user_token''" "lit ''qs_abcdefghijkl''"
        "lit ''cs_mnopqrstuvwx''" "lit ''A''" "lit ''1D''" 10 False silent_env init_state
        "lit ''A''" PyNone "lit ''NSE''" in_daily]
    by (simp add: init_state_def)
qed

subsection \<open>The read loop\<close>

lemma starts_with_newline:
  "10 \<notin> set m \<Longrightarrow> starts_with m (x @ 10 # y) = starts_with m x"
proof (induction m x rule: starts_with.induct)
  case (1 s)
  then show ?case by simp
next
  case (2 p ps)
  then show ?case by auto
next
  case (3 p ps c cs)
  then show ?case by simp
qed

lemma py_in_newline:
  "10 \<notin> set m \<Longrightarrow> py_in m (x @ 10 # y) = (py_in m x \<or> py_in m y)"
proof (induction x)
  case Nil
  have "starts_with m (10 # y) = starts_with m []"
    using starts_with_newline [OF Nil, of "[]" y] by simp
  then show ?case by (cases m) auto
next
  case (Cons c x)
  have "starts_with m (c # x @ 10 # y) = starts_with m (c # x)"
    using starts_with_newline [OF Cons.prems, of "c # x" y] by simp
  then show ?case using Cons by auto
qed

lemma py_in_line:
  assumes "10 \<notin> set m" "m \<noteq> []" "raw = [] \<or> last raw = 10"
  shows "py_in m (raw @ result @ [10]) = (py_in m raw \<or> py_in m result)"
proof -
  have e: "py_in m [] = False" using assms(2) by simp
  have r: "py_in m (result @ [10]) = py_in m result"
    using py_in_newline [OF assms(1), of result "[]"] e by simp
  show ?thesis
  proof (cases "raw = []")
    case True
    then show ?thesis using r e by simp
  next
    case False
    then obtain a where a: "raw = a @ [10]" using assms(3) by (metis append_butlast_last_id)
    have "py_in m raw = py_in m a"
      using py_in_newline [OF assms(1), of a "[]"] e a by simp
    moreover have "py_in m (raw @ result @ [10]) = (py_in m a \<or> py_in m (result @ [10]))"
      using py_in_newline [OF assms(1), of a "result @ [10]"] a by simp
    ultimately show ?thesis using r by simp
  qed
qed

lemma marker_no_newline:
  "10 \<notin> set (lit ''series_completed'')" "lit ''series_completed'' \<noteq> []"
  "10 \<notin> set (lit ''series_error'')" "lit ''series_error'' \<noteq> []"
  by (simp_all add: lit_def)

lemma accum_Suc:
  "recv_result env (k0 + j) = Some m \<Longrightarrow> accum env k0 (Suc j) = accum env k0 j @ m @ [10]"
  by (simp add: accum_def)

lemma recv_loop_invariant:
  assumes "recv_loop env fs raw mc st = (r, raw', mc', st')"
    and "n_recv st = k0 + mc" and "raw = accum env k0 mc" and "raw = [] \<or> last raw = 10"
    and "\<not> py_in (lit ''series_completed'') raw" and "\<not> py_in (lit ''series_error'') raw"
    and "mc \<le> max_messages"
  shows "n_recv st \<le> n_recv st' \<and> n_recv st' \<le> k0 + max_messages
     \<and> raw' = accum env k0 mc'
     \<and> (\<forall>j. mc \<le> j \<and> k0 + Suc j < n_recv st' \<longrightarrow>
           \<not> py_in (lit ''series_completed'') (accum env k0 (Suc j))
         \<and> \<not> py_in (lit ''series_error'') (accum env k0 (Suc j)))"
  using assms
proof (induction env fs raw mc st arbitrary: r raw' mc' st' rule: recv_loop.induct)
  case (1 env fs raw mc st)
  note prems = "1.prems"
  show ?case
  proof (cases "mc < max_messages")
    case False
    then have "st' = st" "raw' = raw" "mc' = mc"
      using prems(1) by (subst (asm) recv_loop.simps, simp)+
    then show ?thesis using prems by auto
  next
    case True
    show ?thesis
    proof (cases "recv_result env (n_recv st)")
      case None
      then have "st' = st\<lparr>n_recv := Suc (n_recv st)\<rparr>" "raw' = raw" "mc' = mc"
        using prems(1) True by (subst (asm) recv_loop.simps, simp)+
      then show ?thesis using prems True by auto
    next
      case (Some result)
      let ?raw2 = "raw @ result @ [10]"
      let ?st2 = "st\<lparr>n_recv := Suc (n_recv st)\<rparr>"
      have acc2: "?raw2 = accum env k0 (Suc mc)"
        using Some prems(2,3) by (simp add: accum_Suc)
      show ?thesis
      proof (cases "py_in (lit ''series_completed'') result \<or> py_in (lit ''series_error'') result")
        case stop: True
        have "st' = ?st2 \<and> raw' = ?raw2 \<and> mc' = mc + 1"
          using prems(1) True Some stop
          by (subst (asm) recv_loop.simps) (auto split: sum.splits if_splits)
        then show ?thesis using prems True acc2 by auto
      next
        case go: False
        have rec: "recv_loop env fs ?raw2 (mc + 1) ?st2 = (r, raw', mc', st')"
          using prems(1) True Some go by (subst (asm) recv_loop.simps) simp
        have c2: "\<not> py_in (lit ''series_completed'') ?raw2"
          using py_in_line [OF marker_no_newline(1,2) prems(4), of result] prems(5) go by simp
        have e2: "\<not> py_in (lit ''series_error'') ?raw2"
          using py_in_line [OF marker_no_newline(3,4) prems(4), of result] prems(6) go by simp
        have ih: "n_recv ?st2 \<le> n_recv st' \<and> n_recv st' \<le> k0 + max_messages
           \<and> raw' = accum env k0 mc'
           \<and> (\<forall>j. mc + 1 \<le> j \<and> k0 + Suc j < n_recv st' \<longrightarrow>
                 \<not> py_in (lit ''series_completed'') (accum env k0 (Suc j))
               \<and> \<not> py_in (lit ''series_error'') (accum env k0 (Suc j)))"
        proof (rule "1.IH" [OF True Some _ _ rec])
          show "\<not> py_in (lit ''series_completed'') result" using go by simp
          show "\<not> py_in (lit ''series_error'') result" using go by simp
          show "n_recv ?st2 = k0 + (mc + 1)" using prems(2) by simp
          show "?raw2 = accum env k0 (mc + 1)" using acc2 by simp
          show "?raw2 = [] \<or> last ?raw2 = 10" by simp
          show "\<not> py_in (lit ''series_completed'') ?raw2" by (rule c2)
          show "\<not> py_in (lit ''series_error'') ?raw2" by (rule e2)
          show "mc + 1 \<le> max_messages" using True by simp
        qed
        have "\<forall>j. mc \<le> j \<and> k0 + Suc j < n_recv st' \<longrightarrow>
                 \<not> py_in (lit ''series_completed'') (accum env k0 (Suc j))
               \<and> \<not> py_in (lit ''series_error'') (accum env k0 (Suc j))"
        proof (intro allI impI)
          fix j
          assume j: "mc \<le> j \<and> k0 + Suc j < n_recv st'"
          show "\<not> py_in (lit ''series_completed'') (accum env k0 (Suc j))
               \<and> \<not> py_in (lit ''series_error'') (accum env k0 (Suc j))"
          proof (cases "j = mc")
            case True
            then show ?thesis using c2 e2 acc2 by simp
          next
            case False
            then have "mc + 1 \<le> j" using j by simp
            then show ?thesis using ih j by blast
          qed
        qed
        then show ?thesis using ih by simp
      qed
    qed
  qed
qed

text \<open>
  C9.  The read loop of an attempt starts with an empty text and a count of zero.  It
  makes at most \<open>max_messages\<close> (100) receives, its text is the accumulation of the
  messages received, each followed by a newline, and after every receive but the last
  one the accumulated text contains neither \<open>series_completed\<close> nor \<open>series_error\<close>: as
  soon as the accumulated text contains one of them, nothing more is received.
\<close>

theorem recv_loop_bounded:
  assumes "recv_loop env fs [] 0 st = (r, raw, mc, st')"
  shows "n_recv st \<le> n_recv st' \<and> n_recv st' - n_recv st \<le> max_messages
     \<and> raw = accum env (n_recv st) mc
     \<and> (\<forall>j. Suc j < n_recv st' - n_recv st \<longrightarrow>
           \<not> py_in (lit ''series_completed'') (accum env (n_recv st) (Suc j))
         \<and> \<not> py_in (lit ''series_error'') (accum env (n_recv st) (Suc j)))"
proof -
  have inv: "n_recv st \<le> n_recv st' \<and> n_recv st' \<le> n_recv st + max_messages
     \<and> raw = accum env (n_recv st) mc
     \<and> (\<forall>j. 0 \<le> j \<and> n_recv st + Suc j < n_recv st' \<longrightarrow>
           \<not> py_in (lit ''series_completed'') (accum env (n_recv st) (Suc j))
         \<and> \<not> py_in (lit ''series_error'') (accum env (n_recv st) (Suc j)))"
    by (rule recv_loop_invariant [OF assms]) (simp_all add: accum_def marker_no_newline)
  then have "\<forall>j. Suc j < n_recv st' - n_recv st \<longrightarrow>
           \<not> py_in (lit ''series_completed'') (accum env (n_recv st) (Suc j))
         \<and> \<not> py_in (lit ''series_error'') (accum env (n_recv st) (Suc j))"
  proof (intro allI impI)
    fix j
    assume "Suc j < n_recv st' - n_recv st"
    then have "0 \<le> j \<and> n_recv st + Suc j < n_recv st'" by linarith
    then show "\<not> py_in (lit ''series_completed'') (accum env (n_recv st) (Suc j))
         \<and> \<not> py_in (lit ''series_error'') (accum env (n_recv st) (Suc j))"
      using inv by blast
  qed
  then show ?thesis using inv by auto
qed

lemma error_env_recv:
  "recv_result error_env 0 = Some (lit ''hello'')"
  "recv_result error_env (Suc 0) = Some (lit ''~m~12~m~series_error'')"
  by (simp_all add: error_env_def demo_env_def)

lemma error_env_markers:
  "\<not> py_in (lit ''series_completed'') (lit ''hello'')"
  "\<not> py_in (lit ''series_error'') (lit ''hello'')"
  "\<not> py_in (lit ''series_completed'') (lit ''~m~12~m~series_error'')"
  "py_in (lit ''series_error'') (lit ''~m~12~m~series_error'')"
  by (simp_all add: lit_def)

lemma error_env_loop:
  "recv_loop error_env (lit ''A'') [] 0 init_state =
     (None, lit ''hello'' @ [10] @ lit ''~m~12~m~series_error'' @ [10], 2,
      init_state\<lparr>n_recv := 2\<rparr>)"
proof -
  have i: "n_recv init_state = 0" by (simp add: init_state_def)
  have m: "(0::nat) < max_messages" "Suc 0 < max_messages" by (simp_all add: max_messages_def)
  have step1: "recv_loop error_env (lit ''A'') [] 0 init_state
      = recv_loop error_env (lit ''A'') ([] @ lit ''hello'' @ [10]) (0 + 1)
          (init_state\<lparr>n_recv := Suc (n_recv init_state)\<rparr>)"
    by (subst recv_loop.simps) (simp only: m i error_env_recv error_env_markers if_True if_False option.case)
  have step2: "recv_loop error_env (lit ''A'') ([] @ lit ''hello'' @ [10]) (0 + 1)
          (init_state\<lparr>n_recv := Suc (n_recv init_state)\<rparr>)
      = (None, ([] @ lit ''hello'' @ [10]) @ lit ''~m~12~m~series_error'' @ [10], 0 + 1 + 1,
          init_state\<lparr>n_recv := Suc (n_recv init_state)\<rparr>\<lparr>n_recv :=
             Suc (n_recv (init_state\<lparr>n_recv := Suc (n_recv init_state)\<rparr>))\<rparr>)"
    by (subst recv_loop.simps) (simp add: m i error_env_recv error_env_markers)
  show ?thesis unfolding step1 step2 by (simp add: i)
qed

lemma accum_error_env:
  "accum error_env 0 1 = lit ''hello'' @ [10]"
  by (simp add: accum_def error_env_recv)

theorem recv_loop_bounded_witness:
  "recv_loop error_env (lit ''A'') [] 0 init_state =
     (None, lit ''hello'' @ [10] @ lit ''~m~12~m~series_error'' @ [10], 2,
      init_state\<lparr>n_recv := 2\<rparr>)
   \<and> n_recv (init_state\<lparr>n_recv := 2\<rparr>) - n_recv init_state \<le> max_messages
   \<and> lit ''hello'' @ [10] @ lit ''~m~12~m~series_error'' @ [10] = accum error_env 0 2
   \<and> \<not> py_in (lit ''series_error'') (accum error_env 0 1)"
proof -
  have i: "n_recv init_state = 0" by (simp add: init_state_def)
  note b = recv_loop_bounded [OF error_env_loop]
  have b2: "n_recv (init_state\<lparr>n_recv := 2\<rparr>) - n_recv init_state \<le> max_messages"
    using b by blast
  have b3: "lit ''hello'' @ [10] @ lit ''~m~12~m~series_error'' @ [10] = accum error_env 0 2"
    using b i by metis
  have "Suc 0 < n_recv (init_state\<lparr>n_recv := 2\<rparr>) - n_recv init_state" by (simp add: i)
  then have b4: "\<not> py_in (lit ''series_error'') (accum error_env (n_recv init_state) (Suc 0))"
    using b by blast
  show ?thesis using error_env_loop b2 b3 b4 by (simp only: i One_nat_def simp_thms)
qed

subsection \<open>The parser's fields\<close>






lemma expected_rows_length [simp]: "length (expected_rows env volume_data chunks) = length chunks"
  by (induction chunks arbitrary: volume_data) simp_all








subsection \<open>\<open>get_multiple_hist\<close>\<close>






subsection \<open>\<open>DataFetchThread.run\<close>\<close>

lemma run_inv_emit:
  "\<not> is_output sig \<Longrightarrow> run_inv S (emit sig rs) = run_inv S rs"
  by (simp add: run_inv_def emit_def)

lemma emit_fields [simp]:
  "results (emit sig rs) = results rs" "world (emit sig rs) = world rs"
  "emitted (emit sig rs) = emitted rs @ [sig]"
  by (simp_all add: emit_def)

lemma clean_frame_empty [simp]: "(clean_frame exchange df = []) = (df = [])"
  by (simp add: clean_frame_def)

lemma attempt_symbol_inv:
  assumes "attempt_symbol gh exchange n_bars max_tries rnd symbol xs rs = (ok, rs')"
    and "run_inv S rs" and "symbol \<in> S"
  shows "run_inv S rs' \<and> dom (results rs) \<subseteq> dom (results rs')
     \<and> (ok \<longrightarrow> symbol \<in> dom (results rs'))
     \<and> filter (\<lambda>s. \<not> is_log s) (emitted rs') = filter (\<lambda>s. \<not> is_log s) (emitted rs)"
  using assms
proof (induction xs arbitrary: rs)
  case Nil
  then show ?case by simp
next
  case (Cons attempt rest)
  let ?rs1 = "emit (Log_message (Fetching rnd n_bars symbol (attempt + 1) max_tries)
                        (lit ''#60a5fa'')) rs"
  have i1: "run_inv S ?rs1" using Cons.prems(2) by (simp add: run_inv_emit)
  obtain res w where g: "gh symbol (world ?rs1) = (res, w)" by (cases "gh symbol (world ?rs1)")
  show ?case
  proof (cases res)
    case (Inl e)
    let ?rs2 = "emit (Log_message (Error_fetching rnd symbol (attempt + 1) e) (lit ''#ef4444''))
                  (?rs1\<lparr>world := w\<rparr>)"
    have rec: "attempt_symbol gh exchange n_bars max_tries rnd symbol rest ?rs2 = (ok, rs')"
      using Cons.prems(1) g Inl by (simp add: Let_def)
    have "run_inv S ?rs2" using i1 by (simp add: run_inv_def emit_def)
    from Cons.IH [OF rec this Cons.prems(3)] show ?thesis by (simp add: emit_def)
  next
    case (Inr df)
    show ?thesis
    proof (cases "df = []")
      case True
      let ?rs2 = "emit (Log_message (No_data rnd symbol (attempt + 1)) (lit ''#ef4444''))
                       (?rs1\<lparr>world := w\<rparr>)"
      have rec: "attempt_symbol gh exchange n_bars max_tries rnd symbol rest ?rs2 = (ok, rs')"
        using Cons.prems(1) g Inr True by (simp add: Let_def)
      have "run_inv S ?rs2" using i1 by (simp add: run_inv_def emit_def)
      from Cons.IH [OF rec this Cons.prems(3)] show ?thesis by (simp add: emit_def)
    next
      case False
      then have "ok" and rs': "rs' = emit (Log_message (Downloaded rnd (length df) symbol) (lit ''#22c55e''))
                  (?rs1\<lparr>results := (results ?rs1)(symbol \<mapsto> clean_frame exchange df),
                       world := w\<rparr>)"
        using Cons.prems(1) g Inr by (simp_all add: Let_def)
      show ?thesis
        using i1 False Cons.prems(3) \<open>ok\<close> unfolding rs'
        by (auto simp: run_inv_def emit_def)
    qed
  qed
qed

lemma first_pass_inv:
  assumes "first_pass gh exchange n_bars max_tries tot xs failed rs = (failed', rs')"
    and "run_inv S rs" and "snd ` set xs \<subseteq> S"
  shows "run_inv S rs'
     \<and> dom (results rs) \<union> set failed \<union> snd ` set xs \<subseteq> dom (results rs') \<union> set failed'
     \<and> set failed' \<subseteq> set failed \<union> snd ` set xs
     \<and> filter (\<lambda>s. \<not> is_log s) (emitted rs')
       = filter (\<lambda>s. \<not> is_log s) (emitted rs) @ map (\<lambda>x. Progress (fst x + 1) tot) xs"
  using assms
proof (induction xs arbitrary: failed rs)
  case Nil
  then show ?case by simp
next
  case (Cons x rest)
  obtain idx symbol where x: "x = (idx, symbol)" by (cases x)
  obtain ok rs1 where a: "attempt_symbol gh exchange n_bars max_tries None symbol
      [0..<nat max_tries] rs = (ok, rs1)"
    by (cases "attempt_symbol gh exchange n_bars max_tries None symbol [0..<nat max_tries] rs")
  have s: "symbol \<in> S" using Cons.prems(3) x by auto
  note a1 = attempt_symbol_inv [OF a Cons.prems(2) s]
  define failed1 where "failed1 = (if ok then failed else failed @ [symbol])"
  define rs2 where "rs2 = emit (Progress (idx + 1) tot)
               (if ok then rs1
                else emit (Log_message (Failed_to_download symbol max_tries) (lit ''#ef4444''))
                       rs1)"
  have rec: "first_pass gh exchange n_bars max_tries tot rest failed1 rs2 = (failed', rs')"
    using Cons.prems(1) x a unfolding failed1_def rs2_def by simp
  have i2: "run_inv S rs2"
    using a1 [THEN conjunct1] unfolding rs2_def by (simp add: run_inv_emit)
  have r2: "results rs2 = results rs1" unfolding rs2_def by simp
  have e2: "filter (\<lambda>s. \<not> is_log s) (emitted rs2)
      = filter (\<lambda>s. \<not> is_log s) (emitted rs) @ [Progress (idx + 1) tot]"
    using a1 [THEN conjunct2, THEN conjunct2, THEN conjunct2] unfolding rs2_def by simp
  have rest: "snd ` set rest \<subseteq> S" using Cons.prems(3) by auto
  note ih = Cons.IH [OF rec i2 rest]
  note ih1 = ih [THEN conjunct1]
  note ih2 = ih [THEN conjunct2, THEN conjunct1, unfolded r2]
  note ih3 = ih [THEN conjunct2, THEN conjunct2, THEN conjunct1]
  note ih4 = ih [THEN conjunct2, THEN conjunct2, THEN conjunct2]
  have d: "dom (results rs) \<subseteq> dom (results rs1)"
    by (rule a1 [THEN conjunct2, THEN conjunct1])
  have k: "ok \<Longrightarrow> symbol \<in> dom (results rs1)"
    using a1 [THEN conjunct2, THEN conjunct2, THEN conjunct1] by simp
  have sx: "snd ` set (x # rest) = insert symbol (snd ` set rest)" by (simp add: x)
  have f1: "set failed1 \<subseteq> insert symbol (set failed)" "set failed \<subseteq> set failed1"
    "\<not> ok \<Longrightarrow> symbol \<in> set failed1"
    unfolding failed1_def by auto
  have c1: "symbol \<in> dom (results rs1) \<union> set failed1" using k f1(3) by blast
  show ?case
  proof (intro conjI)
    show "run_inv S rs'" by (rule ih1)
    show "dom (results rs) \<union> set failed \<union> snd ` set (x # rest) \<subseteq> dom (results rs') \<union> set failed'"
      unfolding sx using d f1(2) c1 ih2 by blast
    show "set failed' \<subseteq> set failed \<union> snd ` set (x # rest)"
      unfolding sx using f1(1) ih3 by blast
    show "filter (\<lambda>s. \<not> is_log s) (emitted rs')
       = filter (\<lambda>s. \<not> is_log s) (emitted rs) @ map (\<lambda>x. Progress (fst x + 1) tot) (x # rest)"
      using ih4 e2 by (simp add: x)
  qed
qed

lemma retry_symbols_inv:
  assumes "retry_symbols gh exchange n_bars max_tries rr xs new_failed rs = (failed', rs')"
    and "run_inv S rs" and "set xs \<subseteq> S"
  shows "run_inv S rs'
     \<and> dom (results rs) \<union> set new_failed \<union> set xs \<subseteq> dom (results rs') \<union> set failed'
     \<and> set failed' \<subseteq> set new_failed \<union> set xs
     \<and> filter (\<lambda>s. \<not> is_log s) (emitted rs') = filter (\<lambda>s. \<not> is_log s) (emitted rs)"
  using assms
proof (induction xs arbitrary: new_failed rs)
  case Nil
  then show ?case by simp
next
  case (Cons symbol rest)
  obtain ok rs1 where a: "attempt_symbol gh exchange n_bars max_tries (Some rr) symbol
      [0..<nat max_tries] rs = (ok, rs1)"
    by (cases "attempt_symbol gh exchange n_bars max_tries (Some rr) symbol [0..<nat max_tries] rs")
  have s: "symbol \<in> S" using Cons.prems(3) by auto
  note a1 = attempt_symbol_inv [OF a Cons.prems(2) s]
  define nf1 where "nf1 = (if ok then new_failed else new_failed @ [symbol])"
  have rec: "retry_symbols gh exchange n_bars max_tries rr rest nf1 rs1 = (failed', rs')"
    using Cons.prems(1) a unfolding nf1_def by simp
  have rest: "set rest \<subseteq> S" using Cons.prems(3) by auto
  note ih = Cons.IH [OF rec a1 [THEN conjunct1] rest]
  note ih1 = ih [THEN conjunct1]
  note ih2 = ih [THEN conjunct2, THEN conjunct1]
  note ih3 = ih [THEN conjunct2, THEN conjunct2, THEN conjunct1]
  note ih4 = ih [THEN conjunct2, THEN conjunct2, THEN conjunct2]
  note a3 = a1 [THEN conjunct2, THEN conjunct2, THEN conjunct2]
  have d: "dom (results rs) \<subseteq> dom (results rs1)"
    by (rule a1 [THEN conjunct2, THEN conjunct1])
  have k: "ok \<Longrightarrow> symbol \<in> dom (results rs1)"
    using a1 [THEN conjunct2, THEN conjunct2, THEN conjunct1] by simp
  have f1: "set nf1 \<subseteq> insert symbol (set new_failed)" "set new_failed \<subseteq> set nf1"
    "\<not> ok \<Longrightarrow> symbol \<in> set nf1"
    unfolding nf1_def by auto
  have c1: "symbol \<in> dom (results rs1) \<union> set nf1" using k f1(3) by blast
  have sx: "set (symbol # rest) = insert symbol (set rest)" by simp
  show ?case
  proof (intro conjI)
    show "run_inv S rs'" by (rule ih1)
    show "dom (results rs) \<union> set new_failed \<union> set (symbol # rest) \<subseteq> dom (results rs') \<union> set failed'"
      unfolding sx using d f1(2) c1 ih2 by blast
    show "set failed' \<subseteq> set new_failed \<union> set (symbol # rest)"
      unfolding sx using f1(1) ih3 by blast
    show "filter (\<lambda>s. \<not> is_log s) (emitted rs') = filter (\<lambda>s. \<not> is_log s) (emitted rs)"
      using ih4 a3 by simp
  qed
qed

lemma retry_rounds_inv:
  assumes "retry_rounds gh exchange n_bars max_tries rr failed rs = (failed', rs')"
    and "run_inv S rs" and "set failed \<subseteq> S"
  shows "run_inv S rs'
     \<and> dom (results rs) \<union> set failed \<subseteq> dom (results rs') \<union> set failed'
     \<and> filter (\<lambda>s. \<not> is_log s) (emitted rs') = filter (\<lambda>s. \<not> is_log s) (emitted rs)"
  using assms
proof (induction gh exchange n_bars max_tries rr failed rs rule: retry_rounds.induct)
  case (1 gh exchange n_bars max_tries rr failed rs)
  show ?case
  proof (cases "failed \<noteq> [] \<and> int rr \<le> max_tries")
    case False
    then have "failed' = failed" "rs' = rs"
      using "1.prems"(1) by (subst (asm) retry_rounds.simps, simp)+
    then show ?thesis using "1.prems" by simp
  next
    case True
    let ?rs0 = "emit (Log_message (Retry_round rr (length failed) failed) (lit ''#f59e0b'')) rs"
    obtain nf rs1 where r: "retry_symbols gh exchange n_bars max_tries rr failed [] ?rs0 = (nf, rs1)"
      by (cases "retry_symbols gh exchange n_bars max_tries rr failed [] ?rs0")
    have rec: "retry_rounds gh exchange n_bars max_tries (rr + 1) nf rs1 = (failed', rs')"
      using "1.prems"(1) True r by (subst (asm) retry_rounds.simps) simp
    have i0: "run_inv S ?rs0" using "1.prems"(2) by (simp add: run_inv_emit)
    note s1 = retry_symbols_inv [OF r i0 "1.prems"(3)]
    note s2 = s1 [THEN conjunct2, THEN conjunct1]
    note s3 = s1 [THEN conjunct2, THEN conjunct2, THEN conjunct2]
    have "set nf \<subseteq> set [] \<union> set failed"
      by (rule s1 [THEN conjunct2, THEN conjunct2, THEN conjunct1])
    then have nfS: "set nf \<subseteq> S" using "1.prems"(3) by auto
    note ih = "1.IH" [OF True r [symmetric] rec s1 [THEN conjunct1] nfS]
    note ih2 = ih [THEN conjunct2, THEN conjunct1]
    note ih3 = ih [THEN conjunct2, THEN conjunct2]
    show ?thesis
    proof (intro conjI)
      show "run_inv S rs'" by (rule ih [THEN conjunct1])
      have "dom (results rs) \<union> set failed \<subseteq> dom (results rs1) \<union> set nf"
        using s2 by simp
      then show "dom (results rs) \<union> set failed \<subseteq> dom (results rs') \<union> set failed'"
        using ih2 by blast
      show "filter (\<lambda>s. \<not> is_log s) (emitted rs') = filter (\<lambda>s. \<not> is_log s) (emitted rs)"
        using ih3 s3 by simp
    qed
  qed
qed

lemma run_body_inv:
  assumes "run_body gh symbols exchange n_bars max_tries w = (failed, rs)"
  shows "run_inv (set symbols) rs \<and> set symbols \<subseteq> dom (results rs) \<union> set failed
     \<and> filter (\<lambda>s. \<not> is_log s) (emitted rs)
         = map (\<lambda>i. Progress (i + 1) (length symbols)) [0..<length symbols]
     \<and> (failed \<noteq> [] \<longrightarrow>
          emitted rs \<noteq> [] \<and> last (emitted rs) = Log_message (Final_failures failed) (lit ''#ef4444''))"
proof -
  let ?rs0 = "\<lparr>results = Map.empty, emitted = [], world = w\<rparr> :: ('a, 'b, 'c) run_state"
  let ?xs = "zip [0..<length symbols] symbols"
  obtain f1 rs1 where p: "first_pass gh exchange n_bars max_tries (length symbols) ?xs [] ?rs0
      = (f1, rs1)"
    by (cases "first_pass gh exchange n_bars max_tries (length symbols) ?xs [] ?rs0")
  obtain f2 rs2 where r: "retry_rounds gh exchange n_bars max_tries 1 f1 rs1 = (f2, rs2)"
    by (cases "retry_rounds gh exchange n_bars max_tries 1 f1 rs1")
  have sx: "snd ` set ?xs = set symbols"
    by (metis diff_zero length_upt map_snd_zip set_map)
  have i0: "run_inv (set symbols) ?rs0" by (simp add: run_inv_def)
  have s0: "snd ` set ?xs \<subseteq> set symbols" using sx by simp
  note p1 = first_pass_inv [OF p i0 s0]
  have c1: "set symbols \<subseteq> dom (results rs1) \<union> set f1"
    using p1 [THEN conjunct2, THEN conjunct1] unfolding sx by simp
  have f1S: "set f1 \<subseteq> set symbols"
    using p1 [THEN conjunct2, THEN conjunct2, THEN conjunct1] unfolding sx by simp
  have e1: "filter (\<lambda>s. \<not> is_log s) (emitted rs1)
      = map (\<lambda>x. Progress (fst x + 1) (length symbols)) ?xs"
    using p1 [THEN conjunct2, THEN conjunct2, THEN conjunct2] by simp
  have m: "map (\<lambda>x. Progress (fst x + 1) (length symbols)) ?xs
      = map (\<lambda>i. Progress (i + 1) (length symbols)) [0..<length symbols]"
  proof -
    have a: "\<And>zs :: (nat \<times> pystr) list.
        map (\<lambda>x. Progress (fst x + 1) (length symbols)) zs
        = map (\<lambda>i. Progress (i + 1) (length symbols)) (map fst zs)"
      by (simp add: comp_def)
    have b: "map fst ?xs = [0..<length symbols]"
      by (rule map_fst_zip) simp
    show ?thesis unfolding a [of ?xs] b by (rule refl)
  qed
  note r1 = retry_rounds_inv [OF r p1 [THEN conjunct1] f1S]
  have c2: "set symbols \<subseteq> dom (results rs2) \<union> set f2"
    using c1 r1 [THEN conjunct2, THEN conjunct1] by blast
  have e2: "filter (\<lambda>s. \<not> is_log s) (emitted rs2)
      = map (\<lambda>i. Progress (i + 1) (length symbols)) [0..<length symbols]"
    using r1 [THEN conjunct2, THEN conjunct2] e1 m by simp
  have fin: "failed = f2" "rs = emit (if f2 \<noteq> []
                      then Log_message (Final_failures f2) (lit ''#ef4444'')
                      else Log_message (All_fetched (length symbols)) (lit ''#22c55e'')) rs2"
    using assms p r by (auto simp: run_body_def)
  have i2: "run_inv (set symbols) rs"
    unfolding fin(2) using r1 [THEN conjunct1] by (simp add: run_inv_emit)
  show ?thesis
  proof (intro conjI)
    show "run_inv (set symbols) rs" by (rule i2)
    show "set symbols \<subseteq> dom (results rs) \<union> set failed"
      unfolding fin using c2 by simp
    show "filter (\<lambda>s. \<not> is_log s) (emitted rs)
         = map (\<lambda>i. Progress (i + 1) (length symbols)) [0..<length symbols]"
      unfolding fin(2) using e2 by simp
    show "failed \<noteq> [] \<longrightarrow>
          emitted rs \<noteq> [] \<and> last (emitted rs) = Log_message (Final_failures failed) (lit ''#ef4444'')"
      unfolding fin by simp
  qed
qed

lemma run_eq:
  "run gh symbols exchange n_bars max_tries w =
     emitted (snd (run_body gh symbols exchange n_bars max_tries w))
       @ [Data_fetched (results (snd (run_body gh symbols exchange n_bars max_tries w)))]"
  by (simp add: run_def split: prod.splits)

text \<open>
  C3, as amended.  For every list of symbols the thread raises nothing and emits, after
  log messages and one progress value for every symbol, exactly one result, the signal
  \<open>data_fetched\<close> with the results mapping; it emits no \<open>error\<close> signal.  The keys of the
  mapping are symbols of the list, each mapped to a frame that is not empty.  The list of
  the symbols that never succeeded is no part of the result: when it is not empty it is
  emitted in the last log message only.  Every symbol of the list is a key of the mapping
  or a member of that list.
\<close>

theorem run_output:
  "\<exists>logs res. run gh symbols exchange n_bars max_tries w = logs @ [Data_fetched res]
     \<and> list_all (\<lambda>s. \<not> is_output s) logs
     \<and> filter (\<lambda>s. \<not> is_log s) logs
         = map (\<lambda>i. Progress (i + 1) (length symbols)) [0..<length symbols]
     \<and> dom res \<subseteq> set symbols
     \<and> (\<forall>s df. res s = Some df \<longrightarrow> df \<noteq> [])
     \<and> set symbols \<subseteq> dom res \<union> set (fst (run_body gh symbols exchange n_bars max_tries w))
     \<and> (fst (run_body gh symbols exchange n_bars max_tries w) \<noteq> [] \<longrightarrow>
          logs \<noteq> [] \<and> last logs = Log_message
            (Final_failures (fst (run_body gh symbols exchange n_bars max_tries w)))
            (lit ''#ef4444''))"
proof -
  obtain failed rs where b: "run_body gh symbols exchange n_bars max_tries w = (failed, rs)"
    by (cases "run_body gh symbols exchange n_bars max_tries w")
  note i = run_body_inv [OF b]
  have inv: "list_all (\<lambda>s. \<not> is_output s) (emitted rs)" "dom (results rs) \<subseteq> set symbols"
    "\<forall>s df. results rs s = Some df \<longrightarrow> df \<noteq> []"
    using i [THEN conjunct1] unfolding run_inv_def by blast+
  show ?thesis
    unfolding run_eq b fst_conv snd_conv
    using inv i [THEN conjunct2]
    by (intro exI [of _ "emitted rs"] exI [of _ "results rs"]) simp
qed

subsection \<open>A \<open>get_hist\<close> that never delivers\<close>

lemma attempt_symbol_no_data:
  assumes "\<forall>s w. fst (gh s w) = Inr []"
  shows "fst (attempt_symbol gh exchange n_bars max_tries rnd symbol xs rs) = False
     \<and> results (snd (attempt_symbol gh exchange n_bars max_tries rnd symbol xs rs)) = results rs"
proof (induction xs arbitrary: rs)
  case Nil
  then show ?case by simp
next
  case (Cons attempt rest)
  let ?rs1 = "emit (Log_message (Fetching rnd n_bars symbol (attempt + 1) max_tries)
                        (lit ''#60a5fa'')) rs"
  obtain w where g: "gh symbol (world ?rs1) = (Inr [], w)"
    using assms [rule_format, of symbol "world ?rs1"] by (cases "gh symbol (world ?rs1)") auto
  show ?case
    using Cons.IH g by (simp add: Let_def)
qed

lemma first_pass_no_data:
  assumes "\<forall>s w. fst (gh s w) = Inr []"
  shows "fst (first_pass gh exchange n_bars max_tries tot xs failed rs) = failed @ map snd xs
     \<and> results (snd (first_pass gh exchange n_bars max_tries tot xs failed rs)) = results rs"
proof (induction xs arbitrary: failed rs)
  case Nil
  then show ?case by simp
next
  case (Cons x rest)
  obtain idx symbol where x: "x = (idx, symbol)" by (cases x)
  obtain ok rs1 where a: "attempt_symbol gh exchange n_bars max_tries None symbol
      [0..<nat max_tries] rs = (ok, rs1)"
    by (cases "attempt_symbol gh exchange n_bars max_tries None symbol [0..<nat max_tries] rs")
  have "\<not> ok" "results rs1 = results rs"
    using attempt_symbol_no_data [OF assms, where exchange = exchange and n_bars = n_bars
        and max_tries = max_tries and rnd = None and symbol = symbol
        and xs = "[0..<nat max_tries]" and rs = rs] a by simp_all
  then show ?case
    using Cons.IH a by (simp add: x)
qed

lemma retry_symbols_no_data:
  assumes "\<forall>s w. fst (gh s w) = Inr []"
  shows "fst (retry_symbols gh exchange n_bars max_tries rr xs new_failed rs) = new_failed @ xs
     \<and> results (snd (retry_symbols gh exchange n_bars max_tries rr xs new_failed rs)) = results rs"
proof (induction xs arbitrary: new_failed rs)
  case Nil
  then show ?case by simp
next
  case (Cons symbol rest)
  obtain ok rs1 where a: "attempt_symbol gh exchange n_bars max_tries (Some rr) symbol
      [0..<nat max_tries] rs = (ok, rs1)"
    by (cases "attempt_symbol gh exchange n_bars max_tries (Some rr) symbol [0..<nat max_tries] rs")
  have "\<not> ok" "results rs1 = results rs"
    using attempt_symbol_no_data [OF assms, where exchange = exchange and n_bars = n_bars
        and max_tries = max_tries and rnd = "Some rr" and symbol = symbol
        and xs = "[0..<nat max_tries]" and rs = rs] a by simp_all
  then show ?case
    using Cons.IH a by simp
qed

lemma retry_rounds_no_data:
  assumes "\<forall>s w. fst (gh s w) = Inr []"
  shows "fst (retry_rounds gh exchange n_bars max_tries rr failed rs) = failed
     \<and> results (snd (retry_rounds gh exchange n_bars max_tries rr failed rs)) = results rs"
  using assms
proof (induction gh exchange n_bars max_tries rr failed rs rule: retry_rounds.induct)
  case (1 gh exchange n_bars max_tries rr failed rs)
  show ?case
  proof (cases "failed \<noteq> [] \<and> int rr \<le> max_tries")
    case False
    then have c: "(failed \<noteq> [] \<and> int rr \<le> max_tries) = False" by simp
    have "retry_rounds gh exchange n_bars max_tries rr failed rs = (failed, rs)"
      by (subst retry_rounds.simps) (simp only: c if_False)
    then show ?thesis by simp
  next
    case True
    let ?rs0 = "emit (Log_message (Retry_round rr (length failed) failed) (lit ''#f59e0b'')) rs"
    obtain nf rs1 where r: "retry_symbols gh exchange n_bars max_tries rr failed [] ?rs0 = (nf, rs1)"
      by (cases "retry_symbols gh exchange n_bars max_tries rr failed [] ?rs0")
    have n: "nf = failed" "results rs1 = results rs"
      using retry_symbols_no_data [OF "1.prems", where exchange = exchange and n_bars = n_bars
          and max_tries = max_tries and rr = rr and xs = failed and new_failed = "[]"
          and rs = ?rs0] r
      by simp_all
    have u: "retry_rounds gh exchange n_bars max_tries rr failed rs
        = retry_rounds gh exchange n_bars max_tries (rr + 1) nf rs1"
      using True r by (subst retry_rounds.simps) simp
    show ?thesis
      unfolding u using "1.IH" [OF True r [symmetric] "1.prems"] n by simp
  qed
qed

lemma run_body_no_data:
  assumes "\<forall>s w. fst (gh s w) = Inr []"
  shows "fst (run_body gh symbols exchange n_bars max_tries w) = symbols
     \<and> results (snd (run_body gh symbols exchange n_bars max_tries w)) = Map.empty"
proof -
  let ?rs0 = "\<lparr>results = Map.empty, emitted = [], world = w\<rparr>"
  let ?xs = "zip [0..<length symbols] symbols"
  obtain f1 rs1 where p: "first_pass gh exchange n_bars max_tries (length symbols) ?xs [] ?rs0
      = (f1, rs1)"
    by (cases "first_pass gh exchange n_bars max_tries (length symbols) ?xs [] ?rs0")
  have p1: "f1 = symbols" "results rs1 = Map.empty"
    using first_pass_no_data [OF assms, where exchange = exchange and n_bars = n_bars
        and max_tries = max_tries and tot = "length symbols" and xs = ?xs and failed = "[]"
        and rs = ?rs0] p
    by simp_all
  obtain f2 rs2 where r: "retry_rounds gh exchange n_bars max_tries 1 f1 rs1 = (f2, rs2)"
    by (cases "retry_rounds gh exchange n_bars max_tries 1 f1 rs1")
  have r1: "f2 = f1" "results rs2 = results rs1"
    using retry_rounds_no_data [OF assms, where exchange = exchange and n_bars = n_bars
        and max_tries = max_tries and rr = 1 and failed = f1 and rs = rs1] r by simp_all
  show ?thesis
    using p r p1 r1 by (simp add: run_body_def)
qed

lemma tv_get_hist_closed: "\<forall>s st. fst (tv_get_hist closed_env exchange intv n_bars s st) = Inr []"
proof -
  have f: "\<And>s. format_symbol s None PyNone = Inr s" by (simp add: format_symbol_def)
  show ?thesis
    unfolding tv_get_hist_def
    by (simp add: get_hist_never_opens [OF closed_env_never_opens f])
qed

theorem run_output_witness:
  "\<exists>logs res. run (tv_get_hist closed_env (lit ''NSE'') in_daily 10) [lit ''A'', lit ''B'']
        (lit ''NSE'') 10 3 init_state = logs @ [Data_fetched res]
     \<and> list_all (\<lambda>s. \<not> is_output s) logs
     \<and> filter (\<lambda>s. \<not> is_log s) logs = [Progress 1 2, Progress 2 2]
     \<and> dom res \<subseteq> set [lit ''A'', lit ''B'']
     \<and> last logs = Log_message (Final_failures [lit ''A'', lit ''B'']) (lit ''#ef4444'')"
proof -
  let ?gh = "tv_get_hist closed_env (lit ''NSE'') in_daily 10"
  have f: "fst (run_body ?gh [lit ''A'', lit ''B''] (lit ''NSE'') 10 3 init_state)
      = [lit ''A'', lit ''B'']"
    using run_body_no_data [where gh = ?gh, OF tv_get_hist_closed] by blast
  have u: "[0..<length [lit ''A'', lit ''B'']] = [0, 1]" by (simp add: upt_rec)
  show ?thesis
    using run_output [of ?gh "[lit ''A'', lit ''B'']" "lit ''NSE''" 10 3 init_state]
    unfolding f u by auto
qed

theorem run_failures_only_logged_counterexample:
  "filter (\<lambda>s. \<not> is_log s)
      (run (tv_get_hist closed_env (lit ''NSE'') in_daily 10) [lit ''A''] (lit ''NSE'') 10 3
         init_state)
     = [Progress 1 1, Data_fetched Map.empty]
   \<and> fst (run_body (tv_get_hist closed_env (lit ''NSE'') in_daily 10) [lit ''A''] (lit ''NSE'')
        10 3 init_state) = [lit ''A'']
   \<and> last (butlast (run (tv_get_hist closed_env (lit ''NSE'') in_daily 10) [lit ''A'']
        (lit ''NSE'') 10 3 init_state))
     = Log_message (Final_failures [lit ''A'']) (lit ''#ef4444'')"
proof -
  let ?gh = "tv_get_hist closed_env (lit ''NSE'') in_daily 10"
  obtain failed rs where b: "run_body ?gh [lit ''A''] (lit ''NSE'') 10 3 init_state = (failed, rs)"
    by (cases "run_body ?gh [lit ''A''] (lit ''NSE'') 10 3 init_state")
  have n: "failed = [lit ''A'']" "results rs = Map.empty"
    using run_body_no_data [where gh = ?gh and symbols = "[lit ''A'']" and exchange = "lit ''NSE''"
        and n_bars = 10 and max_tries = 3 and w = init_state, OF tv_get_hist_closed] b
    by simp_all
  note i = run_body_inv [OF b]
  have e: "filter (\<lambda>s. \<not> is_log s) (emitted rs) = [Progress 1 1]"
    using i [THEN conjunct2, THEN conjunct2, THEN conjunct1] by simp
  have l: "last (emitted rs) = Log_message (Final_failures [lit ''A'']) (lit ''#ef4444'')"
    using i [THEN conjunct2, THEN conjunct2, THEN conjunct2] n by simp
  show ?thesis
    unfolding run_eq b fst_conv snd_conv using n e l by simp
qed

end
